theory Spec2Isabelle
  imports Complex_Main "HOL-Library.Product_Lexorder" "HOL-Library.AList"
begin

section \<open>Numbers of the service\<close>

text \<open>
  The service computes on float64 values (pandas columns, numpy scalars and Python
  floats).  A value is \<open>NaN\<close> (the absence marker of pandas), one of the two infinities,
  or a finite number \<open>Fin x\<close>, where \<open>x\<close> is the real number the float stands for.  Every
  arithmetic operation rounds its exact result to the nearest float64, a tie going to
  the even significand, and gives an infinity when the rounded result does not fit
  (IEEE 754 binary64, round to nearest even).  The sign of zero is not modelled.
\<close>

datatype fval = NaN | PInf | NInf | Fin real

text \<open>\<^verbatim>\<open>pd.isna(value)\<close>: only \<open>NaN\<close> is missing; an infinity is not.\<close>

fun isna :: "fval \<Rightarrow> bool" where
  "isna NaN = True"
| "isna PInf = False"
| "isna NInf = False"
| "isna (Fin x) = False"

text \<open>The nearest integer, a tie going to the even one.\<close>

definition round_half_even :: "real \<Rightarrow> int" where
  "round_half_even x =
     (let f = \<lfloor>x\<rfloor>; d = x - of_int f
      in if d < 1 / 2 then f
         else if 1 / 2 < d then f + 1
         else if even f then f else f + 1)"

text \<open>
  The binary exponent of a number, at least the exponent of the smallest normal float64,
  and the distance of neighbouring float64 values at that exponent (53 significant
  bits).
\<close>

definition exponent2 :: "real \<Rightarrow> int" where
  "exponent2 x = max \<lfloor>log 2 \<bar>x\<bar>\<rfloor> (- 1022)"

definition ulp :: "real \<Rightarrow> real" where
  "ulp x = 2 powi (exponent2 x - 52)"

text \<open>The float64 nearest to a real number.\<close>

definition fl :: "real \<Rightarrow> fval" where
  "fl x =
     (if x = 0 then Fin 0
      else
        let y = of_int (round_half_even (x / ulp x)) * ulp x
        in if 2 ^ 1024 \<le> y then PInf
           else if y \<le> - (2 ^ 1024) then NInf
           else Fin y)"

fun fneg :: "fval \<Rightarrow> fval" where
  "fneg NaN = NaN"
| "fneg PInf = NInf"
| "fneg NInf = PInf"
| "fneg (Fin x) = Fin (- x)"

fun fadd :: "fval \<Rightarrow> fval \<Rightarrow> fval" where
  "fadd NaN b = NaN"
| "fadd PInf NaN = NaN"
| "fadd PInf PInf = PInf"
| "fadd PInf NInf = NaN"
| "fadd PInf (Fin y) = PInf"
| "fadd NInf NaN = NaN"
| "fadd NInf PInf = NaN"
| "fadd NInf NInf = NInf"
| "fadd NInf (Fin y) = NInf"
| "fadd (Fin x) NaN = NaN"
| "fadd (Fin x) PInf = PInf"
| "fadd (Fin x) NInf = NInf"
| "fadd (Fin x) (Fin y) = fl (x + y)"

definition fsub :: "fval \<Rightarrow> fval \<Rightarrow> fval" where
  "fsub a b = fadd a (fneg b)"

fun fmul :: "fval \<Rightarrow> fval \<Rightarrow> fval" where
  "fmul NaN b = NaN"
| "fmul PInf NaN = NaN"
| "fmul PInf PInf = PInf"
| "fmul PInf NInf = NInf"
| "fmul PInf (Fin y) = (if 0 < y then PInf else if y < 0 then NInf else NaN)"
| "fmul NInf NaN = NaN"
| "fmul NInf PInf = NInf"
| "fmul NInf NInf = PInf"
| "fmul NInf (Fin y) = (if 0 < y then NInf else if y < 0 then PInf else NaN)"
| "fmul (Fin x) NaN = NaN"
| "fmul (Fin x) PInf = (if 0 < x then PInf else if x < 0 then NInf else NaN)"
| "fmul (Fin x) NInf = (if 0 < x then NInf else if x < 0 then PInf else NaN)"
| "fmul (Fin x) (Fin y) = fl (x * y)"

text \<open>
  Division of float64 values as numpy and pandas compute it.  The divisor zero gives an
  infinity of the dividend's sign, or \<open>NaN\<close> for \<open>0 / 0\<close>, with a warning and no
  exception; a finite number over an infinity is zero; an infinity over an infinity is
  \<open>NaN\<close>.  (Python's own floats raise on the divisor zero; the one place that divides
  them tests \<^verbatim>\<open>current_value != 0\<close> first.)
\<close>

fun fdiv :: "fval \<Rightarrow> fval \<Rightarrow> fval" where
  "fdiv NaN b = NaN"
| "fdiv PInf NaN = NaN"
| "fdiv PInf PInf = NaN"
| "fdiv PInf NInf = NaN"
| "fdiv PInf (Fin y) = (if y < 0 then NInf else PInf)"
| "fdiv NInf NaN = NaN"
| "fdiv NInf PInf = NaN"
| "fdiv NInf NInf = NaN"
| "fdiv NInf (Fin y) = (if y < 0 then PInf else NInf)"
| "fdiv (Fin x) NaN = NaN"
| "fdiv (Fin x) PInf = Fin 0"
| "fdiv (Fin x) NInf = Fin 0"
| "fdiv (Fin x) (Fin y) =
     (if y \<noteq> 0 then fl (x / y)
      else if 0 < x then PInf
      else if x < 0 then NInf
      else NaN)"

text \<open>\<^verbatim>\<open>a < b\<close> on floats: every comparison with \<open>NaN\<close> is false.\<close>

fun fless :: "fval \<Rightarrow> fval \<Rightarrow> bool" where
  "fless NaN b = False"
| "fless PInf b = False"
| "fless NInf NaN = False"
| "fless NInf PInf = True"
| "fless NInf NInf = False"
| "fless NInf (Fin y) = True"
| "fless (Fin x) NaN = False"
| "fless (Fin x) PInf = True"
| "fless (Fin x) NInf = False"
| "fless (Fin x) (Fin y) = (x < y)"

text \<open>\<^verbatim>\<open>a > b\<close>.\<close>

definition fgreater :: "fval \<Rightarrow> fval \<Rightarrow> bool" where
  "fgreater a b = fless b a"

text \<open>
  Python's \<^verbatim>\<open>round(x, ndigits)\<close> on a float: the exact value of \<open>x\<close> is rounded to the
  nearest multiple of \<open>10 ^ - ndigits\<close>, a tie going to the even multiple, and the
  result is the float64 nearest to that decimal number.  An infinity and \<open>NaN\<close> are
  returned as they are.
\<close>

fun fround :: "fval \<Rightarrow> nat \<Rightarrow> fval" where
  "fround NaN ndigits = NaN"
| "fround PInf ndigits = PInf"
| "fround NInf ndigits = NInf"
| "fround (Fin x) ndigits = fl (of_int (round_half_even (x * 10 ^ ndigits)) / 10 ^ ndigits)"

text \<open>
  The two means of pandas that the service calls, \<^verbatim>\<open>GroupBy.mean()\<close> and
  \<^verbatim>\<open>Series.mean()\<close>.  Each takes the values of a group or of a series, skips the missing
  ones and returns a float64.  The order and the compensation of their float64 sums are
  the library's and not fixed by the service, so both are parameters of the model, and
  every property below holds for every pair of such functions.
\<close>

record pandas =
  group_mean :: "fval list \<Rightarrow> fval"
  series_mean :: "fval list \<Rightarrow> fval"

section \<open>The table and the service\<close>

text \<open>
  The DataFrame: a \<^verbatim>\<open>DATE\<close> column and one float64 column per index, one row per date.
\<close>

record date =
  dt_year :: int
  dt_month :: int
  dt_day :: int

record row =
  DATE :: date
  cells :: "string \<Rightarrow> fval"

record table =
  index_names :: "string list"
  rows :: "row list"

text \<open>\<^verbatim>\<open>self.data.columns\<close>: the date column and the index columns.\<close>

definition columns :: "table \<Rightarrow> string list" where
  "columns t = ''DATE'' # index_names t"

text \<open>A series indexed by \<open>(year, month)\<close>, in index order.\<close>

type_synonym bucket = "int \<times> int"
type_synonym series = "(bucket \<times> fval) list"

datatype error = ValueError string | KeyError string | AttributeError

record service =
  data :: table
  cache :: "string \<rightharpoonup> series"

text \<open>\<^verbatim>\<open>__init__\<close>: the loaded table and an empty cache.\<close>

definition HeatmapService :: "table \<Rightarrow> service" where
  "HeatmapService t = \<lparr>data = t, cache = Map.empty\<rparr>"

text \<open>\<^verbatim>\<open>':'.join(args)\<close>\<close>

fun join_colon :: "string list \<Rightarrow> string" where
  "join_colon [] = []"
| "join_colon [a] = a"
| "join_colon (a # b # bs) = a @ '':'' @ join_colon (b # bs)"

definition get_cache_key :: "string \<Rightarrow> string \<Rightarrow> string list \<Rightarrow> string" where
  "get_cache_key index_name operation args =
     index_name @ '':'' @ operation @ '':'' @ join_colon args"

section \<open>Monthly Aggregator\<close>

definition year_month :: "row \<Rightarrow> bucket" where
  "year_month r = (dt_year (DATE r), dt_month (DATE r))"

text \<open>
  The column \<^verbatim>\<open>index_name\<close> of the frame \<^verbatim>\<open>df\<close> of \<^verbatim>\<open>calculate_monthly_average\<close> after
  \<^verbatim>\<open>df['Year'] = df['DATE'].dt.year\<close> and \<^verbatim>\<open>df['Month'] = df['DATE'].dt.month\<close>: the two
  assignments replace a selected index column of the same name, so for an index named
  \<^verbatim>\<open>Year\<close> or \<^verbatim>\<open>Month\<close> the column holds the calendar numbers and not the index's values.
\<close>

definition monthly_frame_column :: "row \<Rightarrow> string \<Rightarrow> fval" where
  "monthly_frame_column r index_name =
     (if index_name = ''Month'' then Fin (of_int (dt_month (DATE r)))
      else if index_name = ''Year'' then Fin (of_int (dt_year (DATE r)))
      else cells r index_name)"

text \<open>
  \<^verbatim>\<open>df.groupby(['Year', 'Month'])[index_name].mean()\<close>: one group per \<open>(year, month)\<close>
  of the rows, the groups in ascending order of the key, each with the mean of the
  group's values.
\<close>

definition group_values :: "table \<Rightarrow> string \<Rightarrow> bucket \<Rightarrow> fval list" where
  "group_values t index_name k =
     map (\<lambda>r. monthly_frame_column r index_name) (filter (\<lambda>r. year_month r = k) (rows t))"

definition groupby_mean :: "pandas \<Rightarrow> table \<Rightarrow> string \<Rightarrow> series" where
  "groupby_mean pd t index_name =
     map (\<lambda>k. (k, group_mean pd (group_values t index_name k)))
       (sort (remdups (map year_month (rows t))))"

text \<open>
  \<^verbatim>\<open>calculate_monthly_average\<close>.  A cached series is returned as it is.  Otherwise
  \<^verbatim>\<open>self.data[['DATE', index_name]]\<close> raises \<^verbatim>\<open>KeyError\<close> for a name that is no column;
  for the name \<^verbatim>\<open>DATE\<close> it selects the date column twice and \<^verbatim>\<open>df['DATE'].dt\<close> raises
  \<^verbatim>\<open>AttributeError\<close>.  The result is stored in the cache.
\<close>

definition calculate_monthly_average ::
  "pandas \<Rightarrow> service \<Rightarrow> string \<Rightarrow> (error + series) \<times> service" where
  "calculate_monthly_average pd s index_name =
     (let cache_key = get_cache_key index_name ''monthly_avg'' []
      in case cache s cache_key of
           Some cached \<Rightarrow> (Inr cached, s)
         | None \<Rightarrow>
             if index_name \<notin> set (columns (data s)) then (Inl (KeyError index_name), s)
             else if index_name = ''DATE'' then (Inl AttributeError, s)
             else
               let monthly_avg = groupby_mean pd (data s) index_name
               in (Inr monthly_avg, s\<lparr>cache := (cache s)(cache_key \<mapsto> monthly_avg)\<rparr>))"

section \<open>Return Calculator: month over month\<close>

text \<open>\<^verbatim>\<open>monthly_avg.shift(1)\<close>: every value moves one bucket later, the first is missing.\<close>

definition shift1 :: "fval list \<Rightarrow> fval list" where
  "shift1 vs = take (length vs) (NaN # vs)"

text \<open>\<^verbatim>\<open>(monthly_avg / monthly_avg.shift(1)) - 1\<close>, element by element.\<close>

definition calculate_mom_returns :: "series \<Rightarrow> series" where
  "calculate_mom_returns monthly_avg =
     map (\<lambda>((idx, current), previous). (idx, fsub (fdiv current previous) (Fin 1)))
       (zip monthly_avg (shift1 (map snd monthly_avg)))"

section \<open>Matrix Builder\<close>

text \<open>\<^verbatim>\<open>str(n)\<close> of an integer: decimal digits, a minus sign before a negative number.\<close>

definition digit_char :: "nat \<Rightarrow> char" where
  "digit_char d = ''0123456789'' ! d"

fun str_nat :: "nat \<Rightarrow> string" where
  "str_nat n = (if n < 10 then [digit_char n] else str_nat (n div 10) @ [digit_char (n mod 10)])"

declare str_nat.simps [simp del]

definition str_int :: "int \<Rightarrow> string" where
  "str_int i = (if i < 0 then CHR ''-'' # str_nat (nat (- i)) else str_nat (nat i))"

text \<open>
  The output shape: a dictionary from the year's string to a dictionary from the
  month's string to a cell.  A cell of type \<open>'a option\<close> is a value or \<^verbatim>\<open>None\<close>.
\<close>

type_synonym 'a matrix = "string \<rightharpoonup> (string \<rightharpoonup> 'a)"

text \<open>
  The body shared by every loop that fills a matrix:
  \<^verbatim>\<open>if year_str not in m: m[year_str] = {}\<close> and then \<^verbatim>\<open>m[year_str][month_str] = v\<close>.
\<close>

definition matrix_put :: "'a matrix \<Rightarrow> bucket \<Rightarrow> 'a \<Rightarrow> 'a matrix" where
  "matrix_put m idx v =
     (let year_str = str_int (fst idx);
          month_str = str_int (snd idx);
          inner = (case m year_str of None \<Rightarrow> Map.empty | Some d \<Rightarrow> d)
      in m(year_str \<mapsto> inner(month_str \<mapsto> v)))"

text \<open>\<^verbatim>\<open>m[year_str][month_str]\<close> when both keys are present.\<close>

definition matrix_get :: "'a matrix \<Rightarrow> string \<Rightarrow> string \<Rightarrow> 'a option" where
  "matrix_get m year_str month_str =
     (case m year_str of None \<Rightarrow> None | Some d \<Rightarrow> d month_str)"

text \<open>\<^verbatim>\<open>None if pd.isna(value) else round(float(value), ndigits)\<close>\<close>

definition rounded_cell :: "fval \<Rightarrow> nat \<Rightarrow> fval option" where
  "rounded_cell v ndigits = (if isna v then None else Some (fround v ndigits))"

section \<open>The operations\<close>

text \<open>\<^verbatim>\<open>ValueError(f"Index '{index_name}' not found in data")\<close>\<close>

definition index_not_found :: "string \<Rightarrow> error" where
  "index_not_found index_name =
     ValueError (''Index '' @ [CHR 0x27] @ index_name @ [CHR 0x27] @ '' not found in data'')"

text \<open>\<^verbatim>\<open>ValueError(f"Invalid forward period: {forward_period}")\<close>\<close>

definition invalid_forward_period :: "string \<Rightarrow> error" where
  "invalid_forward_period forward_period =
     ValueError (''Invalid forward period: '' @ forward_period)"

definition generate_heatmap_matrix ::
  "pandas \<Rightarrow> service \<Rightarrow> string \<Rightarrow> (error + fval option matrix) \<times> service" where
  "generate_heatmap_matrix pd s index_name =
     (if index_name \<notin> set (columns (data s)) then (Inl (index_not_found index_name), s)
      else case calculate_monthly_average pd s index_name of
             (Inl e, s') \<Rightarrow> (Inl e, s')
           | (Inr monthly_avg, s') \<Rightarrow>
               let mom_returns = calculate_mom_returns monthly_avg;
                   heatmap = fold (\<lambda>(idx, v) heatmap. matrix_put heatmap idx (rounded_cell v 4))
                               mom_returns Map.empty
               in (Inr heatmap, s'))"

definition generate_monthly_price_matrix ::
  "pandas \<Rightarrow> service \<Rightarrow> string \<Rightarrow> (error + fval option matrix) \<times> service" where
  "generate_monthly_price_matrix pd s index_name =
     (if index_name \<notin> set (columns (data s)) then (Inl (index_not_found index_name), s)
      else case calculate_monthly_average pd s index_name of
             (Inl e, s') \<Rightarrow> (Inl e, s')
           | (Inr monthly_avg, s') \<Rightarrow>
               let price_matrix =
                     fold (\<lambda>(idx, v) price_matrix. matrix_put price_matrix idx (rounded_cell v 2))
                       monthly_avg Map.empty
               in (Inr price_matrix, s'))"

text \<open>
  \<^verbatim>\<open>calculate_avg_monthly_profits_3y\<close>: the mean of the returns of the buckets whose
  year is later than the last bucket's year minus three.
\<close>

definition calculate_avg_monthly_profits_3y ::
  "pandas \<Rightarrow> service \<Rightarrow> string \<Rightarrow> (error + fval option) \<times> service" where
  "calculate_avg_monthly_profits_3y pd s index_name =
     (if index_name \<notin> set (columns (data s)) then (Inl (index_not_found index_name), s)
      else case calculate_monthly_average pd s index_name of
             (Inl e, s') \<Rightarrow> (Inl e, s')
           | (Inr monthly_avg, s') \<Rightarrow>
               let mom_returns = calculate_mom_returns monthly_avg
               in if length mom_returns = 0 then (Inr None, s')
                  else
                    let latest_year = fst (fst (last mom_returns));
                        three_years_ago = latest_year - 3;
                        recent_returns = filter (\<lambda>(idx, v). three_years_ago < fst idx) mom_returns
                    in if length recent_returns = 0 then (Inr None, s')
                       else
                         let avg = series_mean pd (map snd recent_returns)
                         in (Inr (if \<not> isna avg then Some (fround avg 6) else None), s'))"

text \<open>
  The column \<^verbatim>\<open>col\<close> of the frame of \<^verbatim>\<open>calculate_rank_percentile_4y\<close> after
  \<^verbatim>\<open>df['Year'] = df['DATE'].dt.year\<close>: for an index named \<^verbatim>\<open>Year\<close> the column holds the
  calendar years.
\<close>

definition yearly_frame_column :: "row \<Rightarrow> string \<Rightarrow> fval" where
  "yearly_frame_column r col =
     (if col = ''Year'' then Fin (of_int (dt_year (DATE r))) else cells r col)"

text \<open>
  The rows of the trailing window (\<^verbatim>\<open>Year > four_years_ago\<close>) and the non-missing
  values of one column there (\<^verbatim>\<open>dropna()\<close>), in row order.
\<close>

definition window_rows :: "table \<Rightarrow> int \<Rightarrow> row list" where
  "window_rows t four_years_ago = filter (\<lambda>r. four_years_ago < dt_year (DATE r)) (rows t)"

definition window_values :: "table \<Rightarrow> string \<Rightarrow> int \<Rightarrow> fval list" where
  "window_values t col four_years_ago =
     filter (\<lambda>v. \<not> isna v) (map (\<lambda>r. yearly_frame_column r col) (window_rows t four_years_ago))"

text \<open>\<^verbatim>\<open>(values.iloc[-1] / values.iloc[0]) - 1\<close> when there are two values or more.\<close>

definition window_return :: "table \<Rightarrow> string \<Rightarrow> int \<Rightarrow> fval option" where
  "window_return t col four_years_ago =
     (let col_values = window_values t col four_years_ago
      in if 2 \<le> length col_values
         then Some (fsub (fdiv (last col_values) (hd col_values)) (Fin 1))
         else None)"

text \<open>
  The loop over \<^verbatim>\<open>self.data.columns\<close> that collects \<^verbatim>\<open>all_returns\<close>: the date column
  is skipped, every other column (the target among them) adds its return when it has
  one.  Nothing in the body raises for a column of the table.
\<close>

definition all_returns_loop :: "table \<Rightarrow> int \<Rightarrow> fval list" where
  "all_returns_loop t four_years_ago =
     fold (\<lambda>col all_returns.
             if col = ''DATE'' then all_returns
             else case window_return t col four_years_ago of
                    Some col_return \<Rightarrow> all_returns @ [col_return]
                  | None \<Rightarrow> all_returns)
       (columns t) []"

text \<open>
  \<^verbatim>\<open>calculate_rank_percentile_4y\<close>.  The latest year is the greatest year of the rows;
  a table without rows has an empty window.  For the name \<^verbatim>\<open>DATE\<close>,
  \<^verbatim>\<open>df['DATE'].dt\<close> raises \<^verbatim>\<open>AttributeError\<close>.  The quotient of the two integers, its
  product with 100 and the rounding are float64 operations.
\<close>

definition calculate_rank_percentile_4y ::
  "service \<Rightarrow> string \<Rightarrow> (error + fval option) \<times> service" where
  "calculate_rank_percentile_4y s index_name =
     (if index_name \<notin> set (columns (data s)) then (Inl (index_not_found index_name), s)
      else if index_name = ''DATE'' then (Inl AttributeError, s)
      else if rows (data s) = [] then (Inr None, s)
      else
        let latest_year = Max (set (map (\<lambda>r. dt_year (DATE r)) (rows (data s))));
            four_years_ago = latest_year - 4;
            df_4y = window_rows (data s) four_years_ago
        in if length df_4y = 0 then (Inr None, s)
           else
             let values = window_values (data s) index_name four_years_ago
             in if length values < 2 then (Inr None, s)
                else
                  let cumulative_return = fsub (fdiv (last values) (hd values)) (Fin 1);
                      all_returns = all_returns_loop (data s) four_years_ago
                  in if length all_returns = 0 then (Inr None, s)
                     else
                       let percentile =
                             fmul (fdiv (Fin (real (length (filter (\<lambda>r. fless r cumulative_return)
                                                                 all_returns))))
                                        (Fin (real (length all_returns))))
                                  (Fin 100)
                       in (Inr (Some (fround percentile 2)), s))"

definition calculate_inverse_rank_percentile ::
  "service \<Rightarrow> string \<Rightarrow> (error + fval option) \<times> service" where
  "calculate_inverse_rank_percentile s index_name =
     (case calculate_rank_percentile_4y s index_name of
        (Inl e, s') \<Rightarrow> (Inl e, s')
      | (Inr None, s') \<Rightarrow> (Inr None, s')
      | (Inr (Some rank_percentile), s') \<Rightarrow>
          (Inr (Some (fround (fsub (Fin 100) rank_percentile) 2)), s'))"

text \<open>
  \<^verbatim>\<open>calculate_monthly_rank_position\<close>.  The first loop fills the dictionary
  \<^verbatim>\<open>all_indices_returns\<close> (a column whose computation raises is skipped); the second
  ranks every bucket of the target.
\<close>

definition all_indices_returns_loop ::
  "pandas \<Rightarrow> service \<Rightarrow> (string \<times> series) list \<times> service" where
  "all_indices_returns_loop pd s =
     fold (\<lambda>col (all_indices_returns, st).
             if col = ''DATE'' then (all_indices_returns, st)
             else case calculate_monthly_average pd st col of
                    (Inl e, st') \<Rightarrow> (all_indices_returns, st')
                  | (Inr col_monthly_avg, st') \<Rightarrow>
                      (AList.update col (calculate_mom_returns col_monthly_avg) all_indices_returns,
                       st'))
       (columns (data s)) ([], s)"

definition same_month_returns ::
  "string \<Rightarrow> (string \<times> series) list \<Rightarrow> bucket \<Rightarrow> fval list" where
  "same_month_returns index_name all_indices_returns idx =
     fold (\<lambda>(col, col_returns) acc.
             if col = index_name then acc
             else case map_of col_returns idx of
                    None \<Rightarrow> acc
                  | Some col_value \<Rightarrow> if \<not> isna col_value then acc @ [col_value] else acc)
       all_indices_returns []"

definition rank_cell ::
  "string \<Rightarrow> (string \<times> series) list \<Rightarrow> bucket \<Rightarrow> fval \<Rightarrow> int option" where
  "rank_cell index_name all_indices_returns idx v =
     (if isna v then None
      else
        let smr = same_month_returns index_name all_indices_returns idx
        in if 0 < length smr
           then Some (int (length (filter (\<lambda>r. fgreater r v) smr)) + 1)
           else None)"

definition calculate_monthly_rank_position ::
  "pandas \<Rightarrow> service \<Rightarrow> string \<Rightarrow> (error + int option matrix) \<times> service" where
  "calculate_monthly_rank_position pd s index_name =
     (if index_name \<notin> set (columns (data s)) then (Inl (index_not_found index_name), s)
      else case calculate_monthly_average pd s index_name of
             (Inl e, s1) \<Rightarrow> (Inl e, s1)
           | (Inr monthly_avg, s1) \<Rightarrow>
               let mom_returns = calculate_mom_returns monthly_avg;
                   (all_indices_returns, s2) = all_indices_returns_loop pd s1;
                   rank_matrix =
                     fold (\<lambda>(idx, v) rank_matrix.
                             matrix_put rank_matrix idx (rank_cell index_name all_indices_returns idx v))
                       mom_returns Map.empty
               in (Inr rank_matrix, s2))"

text \<open>\<^verbatim>\<open>calculate_forward_returns\<close>\<close>

definition period_map :: "string \<rightharpoonup> nat" where
  "period_map =
     map_of [(''1M'', 1), (''3M'', 3), (''6M'', 6), (''1Y'', 12), (''2Y'', 24), (''3Y'', 36),
             (''4Y'', 48)]"

definition forward_cell :: "series \<Rightarrow> nat \<Rightarrow> nat \<Rightarrow> fval \<Rightarrow> fval option" where
  "forward_cell monthly_list months_forward i current_value =
     (let future_idx = i + months_forward
      in if future_idx < length monthly_list
         then
           let future_value = snd (monthly_list ! future_idx)
           in if \<not> isna current_value \<and> \<not> isna future_value \<and> current_value \<noteq> Fin 0
              then Some (fround (fsub (fdiv future_value current_value) (Fin 1)) 4)
              else None
         else None)"

definition calculate_forward_returns ::
  "pandas \<Rightarrow> service \<Rightarrow> string \<Rightarrow> string \<Rightarrow> (error + fval option matrix) \<times> service" where
  "calculate_forward_returns pd s index_name forward_period =
     (if index_name \<notin> set (columns (data s)) then (Inl (index_not_found index_name), s)
      else case period_map forward_period of
             None \<Rightarrow> (Inl (invalid_forward_period forward_period), s)
           | Some months_forward \<Rightarrow>
               (case calculate_monthly_average pd s index_name of
                  (Inl e, s') \<Rightarrow> (Inl e, s')
                | (Inr monthly_avg, s') \<Rightarrow>
                    let monthly_list = monthly_avg;
                        forward_returns =
                          fold (\<lambda>(i, (idx, current_value)) forward_returns.
                                  matrix_put forward_returns idx
                                    (forward_cell monthly_list months_forward i current_value))
                            (enumerate 0 monthly_list) Map.empty
                    in (Inr forward_returns, s')))"

section \<open>Notions used to state the properties\<close>

text \<open>
  The cache is consistent when every entry is the monthly series of an index column,
  stored under that column's key.  The cache of a new service is empty, and
  \<^verbatim>\<open>calculate_monthly_average\<close> is the only writer.
\<close>

definition cache_inv :: "pandas \<Rightarrow> service \<Rightarrow> bool" where
  "cache_inv pd s \<longleftrightarrow>
     (\<forall>k v. cache s k = Some v \<longrightarrow>
        (\<exists>name. name \<in> set (columns (data s)) \<and> name \<noteq> ''DATE'' \<and>
           k = get_cache_key name ''monthly_avg'' [] \<and> v = groupby_mean pd (data s) name))"

text \<open>
  A pair of means to run the operations on example data: the float64 sum of the
  non-missing values from left to right, divided by their number, and \<open>NaN\<close> when every
  value is missing.  In the examples below every sum and every quotient of a mean is a
  float64 itself, so the order of the summation does not matter there.
\<close>

definition mean_skipna :: "fval list \<Rightarrow> fval" where
  "mean_skipna vs =
     (let present = filter (\<lambda>v. \<not> isna v) vs
      in if present = [] then NaN
         else fdiv (foldl fadd (Fin 0) present) (Fin (real (length present))))"

definition example_pandas :: pandas where
  "example_pandas = \<lparr>group_mean = mean_skipna, series_mean = mean_skipna\<rparr>"

text \<open>A small table with two indices, used to run the operations on concrete data.\<close>

definition example_row :: "int \<Rightarrow> int \<Rightarrow> int \<Rightarrow> fval \<Rightarrow> fval \<Rightarrow> row" where
  "example_row y m d a b =
     \<lparr>DATE = \<lparr>dt_year = y, dt_month = m, dt_day = d\<rparr>,
      cells = (\<lambda>c. if c = ''A'' then a else if c = ''B'' then b else NaN)\<rparr>"

definition example_table :: table where
  "example_table =
     \<lparr>index_names = [''A'', ''B''],
      rows = [example_row 2020 1 2 (Fin 100) (Fin 64),
              example_row 2020 1 3 (Fin 104) NaN,
              example_row 2020 2 3 NaN (Fin 80),
              example_row 2020 3 2 (Fin 150) (Fin 48)]\<rparr>"

text \<open>
  The trailing window of \<^verbatim>\<open>calculate_rank_percentile_4y\<close> starts after
  \<^verbatim>\<open>four_years_ago = latest_year - 4\<close>.  An index is comparable when the service finds a
  return for it over the window, that is two non-missing values or more; the return is
  the one the service computes, \<^verbatim>\<open>(col_values.iloc[-1] / col_values.iloc[0]) - 1\<close>.
\<close>

definition window_start :: "table \<Rightarrow> int" where
  "window_start t = Max (set (map (\<lambda>r. dt_year (DATE r)) (rows t))) - 4"

definition comparable :: "table \<Rightarrow> string \<Rightarrow> bool" where
  "comparable t c \<longleftrightarrow> c \<noteq> ''DATE'' \<and> window_return t c (window_start t) \<noteq> None"

definition return_less :: "table \<Rightarrow> string \<Rightarrow> fval \<Rightarrow> bool" where
  "return_less t c cumulative_return =
     (case window_return t c (window_start t) of
        None \<Rightarrow> False
      | Some r \<Rightarrow> fless r cumulative_return)"



text \<open>
  A table with the index \<^verbatim>\<open>T\<close> and \<open>n\<close> further indices \<^verbatim>\<open>U0\<close>, \<^verbatim>\<open>U1\<close>, ...; two rows
  in 2020.  \<^verbatim>\<open>T\<close> goes from 100 to 150, every other index from 100 to 125.
\<close>

definition many_indices_table :: "nat \<Rightarrow> table" where
  "many_indices_table n =
     \<lparr>index_names = ''T'' # map (\<lambda>i. CHR ''U'' # str_nat i) [0..<n],
      rows = [\<lparr>DATE = \<lparr>dt_year = 2020, dt_month = 1, dt_day = 2\<rparr>,
               cells = (\<lambda>c. Fin 100)\<rparr>,
              \<lparr>DATE = \<lparr>dt_year = 2020, dt_month = 2, dt_day = 3\<rparr>,
               cells = (\<lambda>c. if c = ''T'' then Fin 150 else Fin 125)\<rparr>]\<rparr>"

text \<open>
  A table with seven indices and two rows in 2020.  \<^verbatim>\<open>T\<close> goes from 100 to 150,
  \<^verbatim>\<open>L\<close> from 100 to 125, and the five others from 100 to 200: one index of seven has
  a lower return than \<^verbatim>\<open>T\<close>.
\<close>

definition seven_table :: table where
  "seven_table =
     \<lparr>index_names = [''T'', ''L'', ''H1'', ''H2'', ''H3'', ''H4'', ''H5''],
      rows = [\<lparr>DATE = \<lparr>dt_year = 2020, dt_month = 1, dt_day = 2\<rparr>,
               cells = (\<lambda>c. Fin 100)\<rparr>,
              \<lparr>DATE = \<lparr>dt_year = 2020, dt_month = 2, dt_day = 3\<rparr>,
               cells = (\<lambda>c. if c = ''T'' then Fin 150 else if c = ''L'' then Fin 125
                             else Fin 200)\<rparr>]\<rparr>"

text \<open>A table with one index whose monthly averages are 3 and 4.\<close>

definition thirds_table :: table where
  "thirds_table =
     \<lparr>index_names = [''A''],
      rows = [\<lparr>DATE = \<lparr>dt_year = 2020, dt_month = 1, dt_day = 15\<rparr>, cells = (\<lambda>c. Fin 3)\<rparr>,
              \<lparr>DATE = \<lparr>dt_year = 2020, dt_month = 2, dt_day = 14\<rparr>, cells = (\<lambda>c. Fin 4)\<rparr>]\<rparr>"

text \<open>
  A table with the indices \<^verbatim>\<open>A\<close> and \<^verbatim>\<open>Month\<close>, one row in January and one in
  February 2020.  \<^verbatim>\<open>A\<close> goes from 100 to 150, and \<^verbatim>\<open>Month\<close> stays at 100.
\<close>

definition month_table :: table where
  "month_table =
     \<lparr>index_names = [''A'', ''Month''],
      rows = [\<lparr>DATE = \<lparr>dt_year = 2020, dt_month = 1, dt_day = 15\<rparr>,
               cells = (\<lambda>c. Fin 100)\<rparr>,
              \<lparr>DATE = \<lparr>dt_year = 2020, dt_month = 2, dt_day = 14\<rparr>,
               cells = (\<lambda>c. if c = ''A'' then Fin 150 else Fin 100)\<rparr>]\<rparr>"

text \<open>
  The Monthly Series as claim C7 words it: one bucket per \<open>(year, month)\<close> of the rows,
  in ascending order, each with the mean of the daily values that the index has in the
  rows of the bucket.
\<close>

definition spec_group_values :: "table \<Rightarrow> string \<Rightarrow> bucket \<Rightarrow> fval list" where
  "spec_group_values t index_name k =
     map (\<lambda>r. cells r index_name) (filter (\<lambda>r. year_month r = k) (rows t))"

definition spec_monthly_average :: "pandas \<Rightarrow> table \<Rightarrow> string \<Rightarrow> series" where
  "spec_monthly_average pd t index_name =
     map (\<lambda>k. (k, group_mean pd (spec_group_values t index_name k)))
       (sort (remdups (map year_month (rows t))))"

text \<open>
  The month-over-month return that the service computes for an index in one bucket
  (missing when the index has no such bucket), and the comparable peers of a target
  there: the other index columns, each once, whose return in the bucket is not missing.
\<close>

definition mom_return :: "pandas \<Rightarrow> table \<Rightarrow> string \<Rightarrow> bucket \<Rightarrow> fval" where
  "mom_return pd t c k =
     (case map_of (calculate_mom_returns (groupby_mean pd t c)) k of Some v \<Rightarrow> v | None \<Rightarrow> NaN)"

definition peers :: "pandas \<Rightarrow> table \<Rightarrow> string \<Rightarrow> bucket \<Rightarrow> string list" where
  "peers pd t index_name k =
     filter (\<lambda>c. c \<noteq> ''DATE'' \<and> c \<noteq> index_name \<and> \<not> isna (mom_return pd t c k))
       (remdups (index_names t))"

text \<open>The rank of a target whose return in the bucket is \<open>v\<close>.\<close>

definition rank_position :: "pandas \<Rightarrow> table \<Rightarrow> string \<Rightarrow> bucket \<Rightarrow> fval \<Rightarrow> int option" where
  "rank_position pd t index_name k v =
     (if isna v \<or> peers pd t index_name k = [] then None
      else Some (1 + int (length (filter (\<lambda>c. fgreater (mom_return pd t c k) v)
                                     (peers pd t index_name k)))))"

text \<open>
  The rank as claim C8 words it: the returns are the month-over-month returns of the
  Monthly Series of each index, and the rank of the target in a bucket is one more than
  the number of other indices with a greater return there.
\<close>

definition spec_mom_return :: "pandas \<Rightarrow> table \<Rightarrow> string \<Rightarrow> bucket \<Rightarrow> fval" where
  "spec_mom_return pd t c k =
     (case map_of (calculate_mom_returns (spec_monthly_average pd t c)) k of
        Some v \<Rightarrow> v
      | None \<Rightarrow> NaN)"

definition spec_rank_position :: "pandas \<Rightarrow> table \<Rightarrow> string \<Rightarrow> bucket \<Rightarrow> int option" where
  "spec_rank_position pd t index_name k =
     (let v = spec_mom_return pd t index_name k;
          others = filter (\<lambda>c. c \<noteq> index_name \<and> \<not> isna (spec_mom_return pd t c k))
                     (remdups (index_names t))
      in if isna v \<or> others = [] then None
         else Some (1 + int (length (filter (\<lambda>c. fgreater (spec_mom_return pd t c k) v) others))))"

text \<open>
  The dictionary \<^verbatim>\<open>all_indices_returns\<close> without the cache: the loop of
  \<^verbatim>\<open>calculate_monthly_rank_position\<close> with every monthly series computed from the table.
\<close>

definition returns_dict ::
  "pandas \<Rightarrow> table \<Rightarrow> string list \<Rightarrow> (string \<times> series) list \<Rightarrow> (string \<times> series) list" where
  "returns_dict pd t cols acc =
     fold (\<lambda>col d. if col = ''DATE'' then d
                    else AList.update col (calculate_mom_returns (groupby_mean pd t col)) d)
       cols acc"

section \<open>Properties\<close>

subsection \<open>Rounding to float64\<close>

text \<open>
  Facts about \<open>round_half_even\<close> and \<open>fl\<close>: the error of one rounding, the numbers that
  are float64 values themselves, and the value of \<open>fl\<close> at a number whose binary exponent
  is known.
\<close>

lemma round_half_even_of_int: "round_half_even (of_int k) = k"
  by (simp add: round_half_even_def)

lemma round_half_even_le: "x < of_int k + 1 / 2 \<Longrightarrow> round_half_even x \<le> k"
proof -
  assume a: "x < of_int k + 1 / 2"
  then have "x < of_int k + 1" by simp
  then have le: "\<lfloor>x\<rfloor> \<le> k" by (simp add: floor_le_iff)
  show ?thesis
  proof (cases "\<lfloor>x\<rfloor> = k")
    case True
    with a have "x - of_int \<lfloor>x\<rfloor> < 1 / 2" by simp
    with True show ?thesis by (simp add: round_half_even_def)
  next
    case False
    with le have "\<lfloor>x\<rfloor> + 1 \<le> k" by simp
    then show ?thesis by (simp add: round_half_even_def Let_def)
  qed
qed

lemma round_half_even_ge: "of_int k - 1 / 2 < x \<Longrightarrow> k \<le> round_half_even x"
proof -
  assume a: "of_int k - 1 / 2 < x"
  then have "of_int (k - 1) \<le> x" by simp
  then have le: "k - 1 \<le> \<lfloor>x\<rfloor>" by (simp only: le_floor_iff)
  show ?thesis
  proof (cases "\<lfloor>x\<rfloor> = k - 1")
    case True
    with a have "1 / 2 < x - of_int \<lfloor>x\<rfloor>" by simp
    with True show ?thesis by (simp add: round_half_even_def)
  next
    case False
    with le have "k \<le> \<lfloor>x\<rfloor>" by simp
    then show ?thesis by (simp add: round_half_even_def Let_def)
  qed
qed

lemma round_half_even_le_int: "x \<le> of_int k \<Longrightarrow> round_half_even x \<le> k"
  by (rule round_half_even_le) simp

lemma round_half_even_ge_int: "of_int k \<le> x \<Longrightarrow> k \<le> round_half_even x"
  by (rule round_half_even_ge) simp

lemma round_half_even_eq:
  "of_int k - 1 / 2 < x \<Longrightarrow> x < of_int k + 1 / 2 \<Longrightarrow> round_half_even x = k"
  by (simp add: order_antisym round_half_even_le round_half_even_ge)

lemma round_half_even_error: "\<bar>of_int (round_half_even x) - x\<bar> \<le> 1 / 2"
proof -
  have "of_int \<lfloor>x\<rfloor> \<le> x" and "x < of_int \<lfloor>x\<rfloor> + 1" by linarith+
  then show ?thesis
    by (auto simp: round_half_even_def Let_def)
qed

lemma floor_log2:
  assumes "0 < a"
  shows "\<lfloor>log 2 a\<rfloor> = e \<longleftrightarrow> 2 powi e \<le> a \<and> a < 2 powi (e + 1)"
proof -
  have p: "2 powr real_of_int i = (2::real) powi i" for i
    by (rule powr_real_of_int') simp_all
  have "\<lfloor>log 2 a\<rfloor> = e \<longleftrightarrow> real_of_int e \<le> log 2 a \<and> log 2 a < real_of_int (e + 1)"
    by (simp add: floor_eq_iff)
  also have "real_of_int e \<le> log 2 a \<longleftrightarrow> 2 powr real_of_int e \<le> a"
    using assms by (simp add: le_log_iff)
  also have "log 2 a < real_of_int (e + 1) \<longleftrightarrow> a < 2 powr real_of_int (e + 1)"
    using assms by (simp add: log_less_iff)
  finally show ?thesis by (simp only: p)
qed

lemma two_powi_mono: "m \<le> n \<Longrightarrow> (2::real) powi m \<le> 2 powi n"
  by (rule power_int_increasing) simp_all

lemma two_powi_less_cancel: "(2::real) powi m < 2 powi n \<Longrightarrow> m < n"
  using two_powi_mono [of n m] by (cases "m < n") auto

lemma floor_log2_self:
  "0 < a \<Longrightarrow> 2 powi \<lfloor>log 2 a\<rfloor> \<le> a \<and> a < 2 powi (\<lfloor>log 2 a\<rfloor> + 1)"
  using floor_log2 [of a "\<lfloor>log 2 a\<rfloor>"] by simp

lemma floor_log2_less: "0 < a \<Longrightarrow> a < 2 powi m \<Longrightarrow> \<lfloor>log 2 a\<rfloor> < m"
proof -
  assume "0 < a" and "a < 2 powi m"
  with floor_log2_self [of a] have "(2::real) powi \<lfloor>log 2 a\<rfloor> < 2 powi m" by linarith
  then show ?thesis by (rule two_powi_less_cancel)
qed

lemma floor_log2_ge: "0 < a \<Longrightarrow> 2 powi m \<le> a \<Longrightarrow> m \<le> \<lfloor>log 2 a\<rfloor>"
proof -
  assume "0 < a" and "2 powi m \<le> a"
  with floor_log2_self [of a] have "(2::real) powi m < 2 powi (\<lfloor>log 2 a\<rfloor> + 1)" by linarith
  then have "m < \<lfloor>log 2 a\<rfloor> + 1" by (rule two_powi_less_cancel)
  then show ?thesis by simp
qed

lemma exponent2_ge: "- 1022 \<le> exponent2 x"
  by (simp add: exponent2_def)

lemma ulp_pos: "0 < ulp x"
  by (simp add: ulp_def)

lemma exponent2_eq:
  assumes "2 powi e \<le> \<bar>x\<bar>" and "\<bar>x\<bar> < 2 powi (e + 1)" and "- 1022 \<le> e"
  shows "exponent2 x = e"
proof -
  have "0 < (2::real) powi e" by simp
  with assms(1) have pos: "0 < \<bar>x\<bar>" by linarith
  from assms(1,2) have "\<lfloor>log 2 \<bar>x\<bar>\<rfloor> = e"
    using floor_log2 [OF pos, of e] by simp
  with assms(3) show ?thesis by (simp add: exponent2_def)
qed

lemma exponent2_upper: "x \<noteq> 0 \<Longrightarrow> \<bar>x\<bar> < 2 powi (exponent2 x + 1)"
proof -
  assume "x \<noteq> 0"
  then have pos: "0 < \<bar>x\<bar>" by simp
  from floor_log2_self [OF pos] have "\<bar>x\<bar> < 2 powi (\<lfloor>log 2 \<bar>x\<bar>\<rfloor> + 1)" by simp
  also have "\<dots> \<le> 2 powi (exponent2 x + 1)"
    by (rule two_powi_mono) (simp add: exponent2_def)
  finally show ?thesis .
qed

lemma exponent2_lower: "2 powi (- 1022) \<le> \<bar>x\<bar> \<Longrightarrow> 2 powi (exponent2 x) \<le> \<bar>x\<bar>"
proof -
  assume a: "2 powi (- 1022) \<le> \<bar>x\<bar>"
  have "0 < (2::real) powi (- 1022)" by (rule zero_less_power_int) simp
  with a have pos: "0 < \<bar>x\<bar>" by linarith
  from floor_log2_ge [OF pos a] have "exponent2 x = \<lfloor>log 2 \<bar>x\<bar>\<rfloor>"
    by (simp add: exponent2_def)
  with floor_log2_self [OF pos] show ?thesis by simp
qed

lemma exponent2_less: "x \<noteq> 0 \<Longrightarrow> \<bar>x\<bar> < 2 powi m \<Longrightarrow> - 1022 < m \<Longrightarrow> exponent2 x < m"
proof -
  assume "x \<noteq> 0" and b: "\<bar>x\<bar> < 2 powi m" and m: "- 1022 < m"
  then have pos: "0 < \<bar>x\<bar>" by simp
  from floor_log2_less [OF pos b] m show ?thesis by (simp add: exponent2_def)
qed

lemma two_powi_split: "(2::real) powi (a + b) = 2 powi a * 2 powi b"
  by (rule power_int_add) simp

lemma ulp_times: "ulp x * 2 ^ 53 = 2 powi (exponent2 x + 1)"
proof -
  have "(2::real) powi (exponent2 x + 1) = 2 powi ((exponent2 x - 52) + 53)"
    by (rule arg_cong [where f = "power_int 2"]) simp
  also have "\<dots> = 2 powi (exponent2 x - 52) * 2 powi 53" by (rule two_powi_split)
  finally show ?thesis by (simp add: ulp_def)
qed

lemma abs_div_less: "0 < u \<Longrightarrow> \<bar>x\<bar> < u * c \<Longrightarrow> \<bar>x / u\<bar> < (c::real)"
proof -
  assume u: "0 < u" and lt: "\<bar>x\<bar> < u * c"
  have "\<bar>x / u\<bar> = \<bar>x\<bar> / u"
    using u by (simp only: abs_divide abs_of_pos)
  also have "\<dots> < c"
    using u lt by (simp only: pos_divide_less_eq mult.commute)
  finally show ?thesis .
qed

lemma mantissa_bound: "x \<noteq> 0 \<Longrightarrow> \<bar>x / ulp x\<bar> < 2 ^ 53"
proof -
  assume "x \<noteq> 0"
  then have "\<bar>x\<bar> < ulp x * 2 ^ 53"
    using exponent2_upper [of x] ulp_times [of x] by simp
  with ulp_pos [of x] show ?thesis by (rule abs_div_less)
qed

lemma rounded_mantissa_bound: "x \<noteq> 0 \<Longrightarrow> \<bar>round_half_even (x / ulp x)\<bar> \<le> 2 ^ 53"
proof -
  assume "x \<noteq> 0"
  define t where "t = x / ulp x"
  from mantissa_bound [OF \<open>x \<noteq> 0\<close>] have "\<bar>t\<bar> < 2 ^ 53" by (simp only: t_def)
  then have "t \<le> 2 ^ 53" and "- (2 ^ 53) \<le> t" by linarith+
  then have "round_half_even t \<le> 2 ^ 53" and "- (2 ^ 53) \<le> round_half_even t"
    using round_half_even_le_int [of t "2 ^ 53"] round_half_even_ge_int [of "- (2 ^ 53)" t]
    by simp_all
  then show ?thesis unfolding t_def by simp
qed

lemma fl_finite:
  assumes "x \<noteq> 0" and "\<bar>x\<bar> < 2 powi 1023"
  shows "fl x = Fin (of_int (round_half_even (x / ulp x)) * ulp x)"
proof -
  let ?m = "round_half_even (x / ulp x)"
  from assms have "exponent2 x < 1023" by (intro exponent2_less) simp_all
  then have "(2::real) powi (exponent2 x + 1) \<le> 2 powi 1023"
    by (intro two_powi_mono) simp
  then have top: "ulp x * 2 ^ 53 \<le> 2 ^ 1023" using ulp_times [of x] by simp
  from rounded_mantissa_bound [OF assms(1)] have "\<bar>real_of_int ?m\<bar> \<le> 2 ^ 53"
    by (metis of_int_abs of_int_le_iff of_int_numeral of_int_power)
  then have "\<bar>real_of_int ?m * ulp x\<bar> \<le> 2 ^ 53 * ulp x"
    using ulp_pos [of x] by (simp add: abs_mult)
  with top have "\<bar>real_of_int ?m * ulp x\<bar> \<le> 2 ^ 1023" by (simp add: mult.commute)
  moreover have "(2::real) ^ 1023 < 2 ^ 1024" by simp
  ultimately have "real_of_int ?m * ulp x < 2 ^ 1024" and "- (2 ^ 1024) < real_of_int ?m * ulp x"
    by linarith+
  with assms(1) show ?thesis by (simp add: fl_def Let_def)
qed

lemma fl_error:
  assumes "x \<noteq> 0" and "\<bar>x\<bar> < 2 powi 1023"
  shows "\<exists>y. fl x = Fin y \<and> \<bar>y - x\<bar> \<le> ulp x / 2"
proof -
  let ?m = "round_half_even (x / ulp x)"
  have "real_of_int ?m * ulp x - x = (real_of_int ?m - x / ulp x) * ulp x"
    using ulp_pos [of x] by (simp add: left_diff_distrib)
  then have "\<bar>real_of_int ?m * ulp x - x\<bar> = \<bar>real_of_int ?m - x / ulp x\<bar> * \<bar>ulp x\<bar>"
    by (simp only: abs_mult)
  also have "\<bar>ulp x\<bar> = ulp x"
    using ulp_pos [of x] by simp
  finally have "\<bar>real_of_int ?m * ulp x - x\<bar> = \<bar>real_of_int ?m - x / ulp x\<bar> * ulp x" .
  also have "\<dots> \<le> 1 / 2 * ulp x"
    using round_half_even_error [of "x / ulp x"] ulp_pos [of x]
    by (intro mult_right_mono) simp_all
  finally show ?thesis
    using fl_finite [OF assms] by simp
qed

lemma fl_rel_error:
  assumes "2 powi (- 1022) \<le> \<bar>x\<bar>" and "\<bar>x\<bar> < 2 powi 1023"
  shows "\<exists>y. fl x = Fin y \<and> \<bar>y - x\<bar> \<le> \<bar>x\<bar> * 2 powi (- 53)"
proof -
  have "0 < (2::real) powi (- 1022)" by (rule zero_less_power_int) simp
  with assms(1) have nz: "x \<noteq> 0" by auto
  have "ulp x / 2 = 2 powi (exponent2 x + (- 53))"
    unfolding ulp_def by (simp add: power_int_diff)
  also have "\<dots> = 2 powi (exponent2 x) * 2 powi (- 53)" by (rule two_powi_split)
  also have "\<dots> \<le> \<bar>x\<bar> * 2 powi (- 53)"
    using exponent2_lower [OF assms(1)] by (intro mult_right_mono) simp_all
  finally have "ulp x / 2 \<le> \<bar>x\<bar> * 2 powi (- 53)" .
  with fl_error [OF nz assms(2)] show ?thesis by fastforce
qed

lemma fl_exact:
  assumes "\<bar>n\<bar> < 2 ^ 53" and "- 1074 \<le> k" and "k \<le> 970"
  shows "fl (of_int n * 2 powi k) = Fin (of_int n * 2 powi k)"
proof (cases "n = 0")
  case True
  then show ?thesis by (simp add: fl_def)
next
  case False
  let ?x = "real_of_int n * 2 powi k"
  from False have nz: "?x \<noteq> 0" by simp
  have absx: "\<bar>?x\<bar> = real_of_int \<bar>n\<bar> * 2 powi k" by (simp add: abs_mult)
  from assms(1) have "real_of_int \<bar>n\<bar> < 2 ^ 53"
    by (metis of_int_less_iff of_int_numeral of_int_power)
  then have "\<bar>?x\<bar> < 2 ^ 53 * 2 powi k"
    unfolding absx by (intro mult_strict_right_mono) simp_all
  also have "(2::real) ^ 53 * 2 powi k = 2 powi (k + 53)"
    by (simp add: two_powi_split)
  finally have lt: "\<bar>?x\<bar> < 2 powi (k + 53)" .
  from assms(2) have e: "exponent2 ?x < k + 53" using nz lt by (intro exponent2_less) simp_all
  have "(2::real) powi (k + 53) \<le> 2 powi 1023" using assms(3) by (intro two_powi_mono) simp
  with lt have small: "\<bar>?x\<bar> < 2 powi 1023" by linarith
  define j where "j = nat (k + 52 - exponent2 ?x)"
  define u where "u = ulp ?x"
  have upos: "0 < u" by (simp add: u_def ulp_pos)
  from e have j: "k = (exponent2 ?x - 52) + int j" by (simp add: j_def)
  have "(2::real) powi k = 2 powi ((exponent2 ?x - 52) + int j)"
    by (rule arg_cong [where f = "power_int 2"]) (rule j)
  also have "\<dots> = u * 2 ^ j"
    by (simp only: two_powi_split u_def ulp_def power_int_of_nat)
  finally have pk: "2 powi k = u * 2 ^ j" .
  have xu: "?x = of_int (n * 2 ^ j) * u"
    unfolding pk by simp
  have "?x / u = of_int (n * 2 ^ j)"
    using upos by (subst xu) simp
  then have "round_half_even (?x / u) = n * 2 ^ j"
    by (simp only: round_half_even_of_int)
  then have "of_int (round_half_even (?x / u)) * u = ?x"
    by (simp only: xu [symmetric])
  with fl_finite [OF nz small] show ?thesis by (simp add: u_def)
qed

lemma fl_of_int: "\<bar>n\<bar> < 2 ^ 53 \<Longrightarrow> fl (of_int n) = Fin (of_int n)"
  using fl_exact [of n 0] by simp

lemma fl_le_grid:
  assumes "0 < x" and "x \<le> b" and "b = of_int m * 2 powi (eb - 52)"
    and "2 powi eb \<le> b" and "b < 2 powi (eb + 1)" and "- 1022 \<le> eb" and "eb \<le> 1022"
  shows "\<exists>y. fl x = Fin y \<and> 0 \<le> y \<and> y \<le> b"
proof -
  let ?r = "round_half_even (x / ulp x)"
  from assms(1) have nz: "x \<noteq> 0" and ax: "\<bar>x\<bar> = x" by simp_all
  from assms(2,5) have xlt: "\<bar>x\<bar> < 2 powi (eb + 1)" using ax by linarith
  have "(2::real) powi (eb + 1) \<le> 2 powi 1023" using assms(7) by (intro two_powi_mono) simp
  with xlt have small: "\<bar>x\<bar> < 2 powi 1023" by linarith
  from fl_finite [OF nz small] have y: "fl x = Fin (of_int ?r * ulp x)" .
  have "of_int 0 \<le> x / ulp x" using assms(1) ulp_pos [of x] by simp
  then have "0 \<le> ?r" by (rule round_half_even_ge_int)
  then have nonneg: "0 \<le> real_of_int ?r * ulp x" using ulp_pos [of x] by simp
  from assms(6) have "exponent2 x < eb + 1" using nz xlt by (intro exponent2_less) simp_all
  then have le: "exponent2 x \<le> eb" by simp
  have "real_of_int ?r * ulp x \<le> b"
  proof (cases "exponent2 x = eb")
    case True
    then have u: "ulp x = 2 powi (eb - 52)" by (simp add: ulp_def)
    from assms(2,3) have "x / ulp x \<le> of_int m"
      unfolding u by (simp add: field_simps)
    then have "?r \<le> m" by (rule round_half_even_le_int)
    then have "real_of_int ?r * ulp x \<le> real_of_int m * ulp x"
      using ulp_pos [of x] by (intro mult_right_mono) simp_all
    then show ?thesis by (simp add: u assms(3))
  next
    case False
    with le have "exponent2 x + 1 \<le> eb" by simp
    then have "(2::real) powi (exponent2 x + 1) \<le> 2 powi eb" by (rule two_powi_mono)
    with assms(4) have top: "ulp x * 2 ^ 53 \<le> b" using ulp_times [of x] by simp
    from rounded_mantissa_bound [OF nz] have "?r \<le> 2 ^ 53" by simp
    then have "real_of_int ?r \<le> 2 ^ 53"
      by (metis of_int_le_iff of_int_numeral of_int_power)
    then have "real_of_int ?r * ulp x \<le> 2 ^ 53 * ulp x"
      using ulp_pos [of x] by (intro mult_right_mono) simp_all
    with top show ?thesis by (simp add: mult.commute)
  qed
  with y nonneg show ?thesis by simp
qed

lemma fl_eval:
  assumes "2 powi e \<le> \<bar>x\<bar>" and "\<bar>x\<bar> < 2 powi (e + 1)" and "- 1022 \<le> e" and "e \<le> 1022"
  shows "fl x = Fin (of_int (round_half_even (x / 2 powi (e - 52))) * 2 powi (e - 52))"
proof -
  have p: "0 < (2::real) powi e" by simp
  from assms(1) p have "0 < \<bar>x\<bar>" by linarith
  then have nz: "x \<noteq> 0" by simp
  have "(2::real) powi (e + 1) \<le> 2 powi 1023" using assms(4) by (intro two_powi_mono) simp
  with assms(2) have small: "\<bar>x\<bar> < 2 powi 1023" by linarith
  from exponent2_eq [OF assms(1,2,3)] have "ulp x = 2 powi (e - 52)" by (simp add: ulp_def)
  with fl_finite [OF nz small] show ?thesis by simp
qed

lemma fl_1429: "fl (1429 / 100) = Fin (8044554834390548 / 2 ^ 49)"
  using fl_eval [of 3 "1429 / 100"] by (simp add: round_half_even_def)

lemma fl_8571: "fl (8571 / 100) = Fin (6031305063467581 / 2 ^ 46)"
  using fl_eval [of 6 "8571 / 100"] by (simp add: round_half_even_def)

lemma fl_100_minus: "fl (100 - 8044554834390548 / 2 ^ 49) = Fin (6031305063467582 / 2 ^ 46)"
  using fl_eval [of 6 "100 - 8044554834390548 / 2 ^ 49"] by (simp add: round_half_even_def)

lemma fl_abs_error:
  assumes "\<bar>x\<bar> < 2 powi m" and "- 1022 < m" and "m \<le> 1023"
  shows "\<exists>y. fl x = Fin y \<and> \<bar>y - x\<bar> \<le> 2 powi (m - 54)"
proof (cases "x = 0")
  case True
  then show ?thesis by (simp add: fl_def)
next
  case False
  from assms(3) have "(2::real) powi m \<le> 2 powi 1023" by (rule two_powi_mono)
  with assms(1) have "\<bar>x\<bar> < 2 powi 1023" by linarith
  from fl_error [OF False this] obtain y where y: "fl x = Fin y" and e: "\<bar>y - x\<bar> \<le> ulp x / 2"
    by blast
  from exponent2_less [OF False assms(1,2)] have "exponent2 x - 52 \<le> m - 53" by simp
  then have "ulp x \<le> 2 powi (m - 53)"
    unfolding ulp_def by (rule two_powi_mono)
  moreover have "(2::real) powi (m - 53) = 2 powi ((m - 54) + 1)"
    by (rule arg_cong [where f = "power_int 2"]) simp
  then have "(2::real) powi (m - 53) = 2 powi (m - 54) * 2"
    by (simp only: two_powi_split power_int_1_right)
  ultimately have "ulp x / 2 \<le> 2 powi (m - 54)" by simp
  with y e show ?thesis by auto
qed

lemma fl_0: "fl 0 = Fin 0"
  by (simp add: fl_def)

lemma fl_1: "fl 1 = Fin 1"
  using fl_of_int [of 1] by simp

lemma fl_numeral: "numeral n < (2::int) ^ 53 \<Longrightarrow> fl (numeral n) = Fin (numeral n)"
  using fl_of_int [of "numeral n"] by simp

lemma fl_neg_numeral: "numeral n < (2::int) ^ 53 \<Longrightarrow> fl (- numeral n) = Fin (- numeral n)"
  using fl_of_int [of "- numeral n"] by simp

lemma fl_half: "fl (1 / 2) = Fin (1 / 2)"
  using fl_exact [of 1 "- 1"] by simp

lemma fl_quarter: "fl (1 / 4) = Fin (1 / 4)"
  using fl_exact [of 1 "- 2"] by simp

lemma fl_neg_quarter: "fl (- (1 / 4)) = Fin (- (1 / 4))"
  using fl_exact [of "- 1" "- 2"] by simp

lemma fl_3_2: "fl (3 / 2) = Fin (3 / 2)"
  using fl_exact [of 3 "- 1"] by simp

lemma fl_3_4: "fl (3 / 4) = Fin (3 / 4)"
  using fl_exact [of 3 "- 2"] by simp

lemma fl_5_4: "fl (5 / 4) = Fin (5 / 4)"
  using fl_exact [of 5 "- 2"] by simp

lemma fl_neg_1: "fl (- 1) = Fin (- 1)"
  using fl_of_int [of "- 1"] by simp

lemmas fl_simps = fl_0 fl_1 fl_neg_1 fl_numeral fl_neg_numeral fl_half fl_quarter fl_neg_quarter
  fl_3_2 fl_3_4 fl_5_4

subsection \<open>Decimal strings and the matrix\<close>

lemma digit_char_code: "d < 10 \<Longrightarrow> of_char (digit_char d) = (48 + d :: nat)"
proof -
  assume "d < 10"
  then consider "d = 0" | "d = 1" | "d = 2" | "d = 3" | "d = 4" | "d = 5" | "d = 6" | "d = 7"
    | "d = 8" | "d = 9" by force
  then show ?thesis by cases (simp_all add: digit_char_def)
qed

lemma digit_char_inj:
  assumes "a < 10" and "b < 10" and "digit_char a = digit_char b"
  shows "a = b"
proof -
  have "48 + a = (of_char (digit_char a) :: nat)"
    using assms(1) by (simp only: digit_char_code)
  also have "\<dots> = of_char (digit_char b)"
    by (simp only: assms(3))
  also have "\<dots> = 48 + b"
    using assms(2) by (simp only: digit_char_code)
  finally show ?thesis by simp
qed

lemma digit_char_not_minus: "d < 10 \<Longrightarrow> digit_char d \<noteq> CHR ''-''"
  using digit_char_code [of d] by auto

lemma str_nat_nonempty: "str_nat n \<noteq> []"
  by (subst str_nat.simps) simp

lemma hd_str_nat_not_minus: "hd (str_nat n) \<noteq> CHR ''-''"
proof (induction n rule: str_nat.induct)
  case (1 n)
  show ?case
  proof (cases "n < 10")
    case True
    then show ?thesis by (subst str_nat.simps) (simp add: digit_char_not_minus)
  next
    case False
    with 1 show ?thesis by (subst str_nat.simps) (simp add: str_nat_nonempty)
  qed
qed

lemma str_nat_inj: "str_nat a = str_nat b \<Longrightarrow> a = b"
proof (induction a arbitrary: b rule: str_nat.induct)
  case (1 n)
  show ?case
  proof (cases "n < 10")
    case True
    show ?thesis
    proof (cases "b < 10")
      case True
      with \<open>n < 10\<close> 1(2) show ?thesis
        by (simp add: str_nat.simps [of n] str_nat.simps [of b] digit_char_inj)
    next
      case False
      with \<open>n < 10\<close> 1(2) have "str_nat (b div 10) = []"
        by (simp add: str_nat.simps [of n] str_nat.simps [of b])
      then show ?thesis by (simp add: str_nat_nonempty)
    qed
  next
    case False
    show ?thesis
    proof (cases "b < 10")
      case True
      with False 1(2) have "str_nat (n div 10) = []"
        by (simp add: str_nat.simps [of n] str_nat.simps [of b])
      then show ?thesis by (simp add: str_nat_nonempty)
    next
      case bf: False
      with False 1(2) have eq: "str_nat (n div 10) = str_nat (b div 10)"
        and d: "digit_char (n mod 10) = digit_char (b mod 10)"
        by (simp_all add: str_nat.simps [of n] str_nat.simps [of b])
      from 1(1) [OF False eq] have "n div 10 = b div 10" .
      moreover from d have "n mod 10 = b mod 10" by (simp add: digit_char_inj)
      ultimately show ?thesis by (metis div_mult_mod_eq)
    qed
  qed
qed

lemma str_int_inj: "str_int a = str_int b \<Longrightarrow> a = b"
proof -
  assume eq: "str_int a = str_int b"
  have neg: "hd (str_int i) = CHR ''-'' \<longleftrightarrow> i < 0" for i
    by (simp add: str_int_def hd_str_nat_not_minus)
  from eq have same: "a < 0 \<longleftrightarrow> b < 0" using neg by metis
  show ?thesis
  proof (cases "a < 0")
    case True
    with same eq have "str_nat (nat (- a)) = str_nat (nat (- b))" by (simp add: str_int_def)
    then have "nat (- a) = nat (- b)" by (rule str_nat_inj)
    with True same show ?thesis by simp
  next
    case False
    with same eq have "str_nat (nat a) = str_nat (nat b)" by (simp add: str_int_def)
    then have "nat a = nat b" by (rule str_nat_inj)
    with False same show ?thesis by simp
  qed
qed

lemma str_int_eq_iff: "str_int a = str_int b \<longleftrightarrow> a = b"
  using str_int_inj by blast

lemma matrix_get_empty: "matrix_get Map.empty ys ms = None"
  by (simp add: matrix_get_def)

lemma matrix_get_put:
  "matrix_get (matrix_put m idx v) (str_int y) (str_int mo) =
     (if idx = (y, mo) then Some v else matrix_get m (str_int y) (str_int mo))"
  by (cases idx) (auto simp: matrix_get_def matrix_put_def Let_def str_int_eq_iff split: option.splits)

lemma matrix_get_fold_put:
  "distinct (map fst kvs) \<Longrightarrow>
   matrix_get (fold (\<lambda>(idx, v) m. matrix_put m idx v) kvs m0) (str_int y) (str_int mo) =
     (case map_of kvs (y, mo) of Some v \<Rightarrow> Some v | None \<Rightarrow> matrix_get m0 (str_int y) (str_int mo))"
proof (induction kvs arbitrary: m0)
  case Nil
  then show ?case by simp
next
  case (Cons kv kvs)
  obtain k v where kv: "kv = (k, v)" by (cases kv)
  from Cons.prems kv have d: "distinct (map fst kvs)" and nk: "k \<notin> fst ` set kvs" by auto
  from nk have "map_of kvs k = None" by (simp add: map_of_eq_None_iff)
  with Cons.IH [OF d, of "matrix_put m0 k v"] kv show ?case
    by (auto simp: matrix_get_put split: option.splits)
qed

subsection \<open>The cache and the monthly series\<close>

lemma cache_inv_init: "cache_inv pd (HeatmapService t)"
  by (simp add: cache_inv_def HeatmapService_def)

lemma get_cache_key_inj:
  "get_cache_key a op [] = get_cache_key b op [] \<longleftrightarrow> a = b"
  by (simp add: get_cache_key_def)

lemma calculate_monthly_average_valid:
  assumes "cache_inv pd s" and "index_name \<in> set (columns (data s))" and "index_name \<noteq> ''DATE''"
  shows "\<exists>s'. calculate_monthly_average pd s index_name = (Inr (groupby_mean pd (data s) index_name), s')
           \<and> data s' = data s \<and> cache_inv pd s'"
proof (cases "cache s (get_cache_key index_name ''monthly_avg'' [])")
  case None
  let ?s' = "s\<lparr>cache := (cache s)(get_cache_key index_name ''monthly_avg'' [] \<mapsto>
                groupby_mean pd (data s) index_name)\<rparr>"
  from None assms have "calculate_monthly_average pd s index_name =
      (Inr (groupby_mean pd (data s) index_name), ?s')"
    by (simp add: calculate_monthly_average_def Let_def)
  moreover have "cache_inv pd ?s'"
    using assms unfolding cache_inv_def by (auto simp: get_cache_key_inj)
  ultimately show ?thesis by auto
next
  case (Some v)
  from assms(1) Some obtain name where
    "get_cache_key index_name ''monthly_avg'' [] = get_cache_key name ''monthly_avg'' []"
    and "v = groupby_mean pd (data s) name"
    unfolding cache_inv_def by blast
  then have "v = groupby_mean pd (data s) index_name"
    by (simp add: get_cache_key_inj)
  with Some assms(1) show ?thesis
    by (simp add: calculate_monthly_average_def Let_def)
qed

lemma calculate_monthly_average_error_state:
  "calculate_monthly_average pd s index_name = (Inl e, s') \<Longrightarrow> s' = s"
  by (auto simp: calculate_monthly_average_def Let_def split: option.splits if_splits)

lemma map_fst_groupby_mean:
  "map fst (groupby_mean pd t index_name) = sort (remdups (map year_month (rows t)))"
  by (simp add: groupby_mean_def comp_def)

lemma lex_sorted_keys:
  "sorted_wrt (\<lambda>(y1, m1) (y2, m2). y1 < y2 \<or> (y1 = y2 \<and> m1 < (m2::int)))
     (sort (remdups (ks :: bucket list)))"
proof -
  have "sorted_wrt (<) (sort (remdups ks))"
    by (simp add: strict_sorted_iff)
  then show ?thesis
    by (rule sorted_wrt_mono_rel [rotated]) auto
qed

subsection \<open>Month-over-month returns\<close>

lemma length_shift1: "length (shift1 vs) = length vs"
  by (simp add: shift1_def)

lemma nth_shift1: "i < length vs \<Longrightarrow> shift1 vs ! i = (if i = 0 then NaN else vs ! (i - 1))"
  by (cases i) (simp_all add: shift1_def)

lemma length_calculate_mom_returns: "length (calculate_mom_returns ma) = length ma"
  by (simp add: calculate_mom_returns_def length_shift1)

lemma nth_calculate_mom_returns:
  "i < length ma \<Longrightarrow> calculate_mom_returns ma ! i =
     (fst (ma ! i), fsub (fdiv (snd (ma ! i)) (if i = 0 then NaN else snd (ma ! (i - 1)))) (Fin 1))"
  by (simp add: calculate_mom_returns_def length_shift1 nth_shift1 case_prod_beta)

lemma map_fst_calculate_mom_returns: "map fst (calculate_mom_returns ma) = map fst ma"
  by (rule nth_equalityI) (simp_all add: length_calculate_mom_returns nth_calculate_mom_returns)

text \<open>
  Claim C2 says that a zero previous value gives absence and never an infinite value.
  \<^verbatim>\<open>calculate_mom_returns\<close> divides the pandas series without a guard: after a month with
  average 0, a month with average 5 has the return \<open>+\<infinity>\<close>.  On the same series the forward
  return of \<^verbatim>\<open>calculate_forward_returns\<close>, which tests \<^verbatim>\<open>current_value != 0\<close>, is \<^verbatim>\<open>None\<close>.
\<close>

theorem C2_mom_return_after_zero:
  "calculate_mom_returns [((2020, 1), Fin 0), ((2020, 2), Fin 5)] =
     [((2020, 1), NaN), ((2020, 2), PInf)] \<and>
   forward_cell [((2020, 1), Fin 0), ((2020, 2), Fin 5)] 1 0 (Fin 0) = None"
  by (simp add: calculate_mom_returns_def shift1_def fsub_def forward_cell_def)

text \<open>
  Claim C9, as stated, fails on a series whose values are all zero: \<open>0 / 0\<close> is \<open>NaN\<close>, so
  the second bucket is missing and not 0.
\<close>

theorem C9_all_zero_counterexample:
  "snd (calculate_mom_returns [((2020, 1), Fin 0), ((2020, 2), Fin 0)] ! 1) = NaN \<and>
   snd (calculate_mom_returns [((2020, 1), Fin 0), ((2020, 2), Fin 0)] ! 1) \<noteq> Fin 0"
  by (simp add: calculate_mom_returns_def shift1_def fsub_def fl_simps)

text \<open>
  Claim C9, amended.  For a monthly series whose values are all the same finite non-zero
  number, the month-over-month return is missing at the first bucket and exactly 0 at
  every later bucket.
\<close>

theorem C9_identical_values:
  assumes "\<forall>kv \<in> set monthly_avg. snd kv = Fin c" and "c \<noteq> 0" and "i < length monthly_avg"
  shows "length (calculate_mom_returns monthly_avg) = length monthly_avg \<and>
         calculate_mom_returns monthly_avg ! i =
           (fst (monthly_avg ! i), if i = 0 then NaN else Fin 0)"
proof -
  from assms(1,3) have cur: "snd (monthly_avg ! i) = Fin c" by simp
  have prev: "snd (monthly_avg ! (i - 1)) = Fin c" if "i \<noteq> 0"
    using assms(1,3) that by simp
  show ?thesis
    using cur prev assms(2,3)
    by (simp add: length_calculate_mom_returns nth_calculate_mom_returns fsub_def fl_simps)
qed

text \<open>A series of three months with the value 7.\<close>

theorem C9_identical_values_witness:
  "calculate_mom_returns [((2020, 1), Fin 7), ((2020, 2), Fin 7), ((2020, 3), Fin 7)] ! 0
     = ((2020, 1), NaN) \<and>
   calculate_mom_returns [((2020, 1), Fin 7), ((2020, 2), Fin 7), ((2020, 3), Fin 7)] ! 2
     = ((2020, 3), Fin 0)"
  using C9_identical_values [of "[((2020, 1), Fin 7), ((2020, 2), Fin 7), ((2020, 3), Fin 7)]" 7 0]
    C9_identical_values [of "[((2020, 1), Fin 7), ((2020, 2), Fin 7), ((2020, 3), Fin 7)]" 7 2]
  by simp

subsection \<open>Invalid requests\<close>

lemma index_not_found_neq_invalid: "index_not_found n \<noteq> invalid_forward_period p"
  by (simp add: index_not_found_def invalid_forward_period_def)

lemma calculate_monthly_average_no_ValueError:
  "fst (calculate_monthly_average pd s n) \<noteq> Inl (ValueError m)"
  by (auto simp: calculate_monthly_average_def Let_def split: option.splits)

lemma period_map_dom:
  "period_map p \<noteq> None \<longleftrightarrow> p \<in> {''1M'', ''3M'', ''6M'', ''1Y'', ''2Y'', ''3Y'', ''4Y''}"
  by (simp add: period_map_def)

lemma period_map_values:
  "period_map ''1M'' = Some 1 \<and> period_map ''3M'' = Some 3 \<and> period_map ''6M'' = Some 6 \<and>
   period_map ''1Y'' = Some 12 \<and> period_map ''2Y'' = Some 24 \<and> period_map ''3Y'' = Some 36 \<and>
   period_map ''4Y'' = Some 48"
  by (simp add: period_map_def)

text \<open>
  Claim C5.  Each of the seven operations, called with a name that is not a column of the
  table, raises the error \<^verbatim>\<open>ValueError("Index '...' not found in data")\<close> (the spec's
  \<^verbatim>\<open>UnknownIndexError\<close>), returns no result, and leaves the service, its cache included,
  as it was.
\<close>

theorem C5_unknown_index:
  assumes "index_name \<notin> set (columns (data s))"
  shows "generate_heatmap_matrix pd s index_name = (Inl (index_not_found index_name), s) \<and>
         calculate_forward_returns pd s index_name forward_period = (Inl (index_not_found index_name), s) \<and>
         generate_monthly_price_matrix pd s index_name = (Inl (index_not_found index_name), s) \<and>
         calculate_avg_monthly_profits_3y pd s index_name = (Inl (index_not_found index_name), s) \<and>
         calculate_rank_percentile_4y s index_name = (Inl (index_not_found index_name), s) \<and>
         calculate_inverse_rank_percentile s index_name = (Inl (index_not_found index_name), s) \<and>
         calculate_monthly_rank_position pd s index_name = (Inl (index_not_found index_name), s)"
  using assms
  by (simp add: generate_heatmap_matrix_def calculate_forward_returns_def
      generate_monthly_price_matrix_def calculate_avg_monthly_profits_3y_def
      calculate_rank_percentile_4y_def calculate_inverse_rank_percentile_def
      calculate_monthly_rank_position_def)

text \<open>The name \<^verbatim>\<open>C\<close> is no column of the example table.\<close>

theorem C5_unknown_index_witness:
  "''C'' \<notin> set (columns (data (HeatmapService example_table))) \<and>
   generate_heatmap_matrix example_pandas (HeatmapService example_table) ''C''
     = (Inl (index_not_found ''C''), HeatmapService example_table) \<and>
   calculate_forward_returns example_pandas (HeatmapService example_table) ''C'' ''1M''
     = (Inl (index_not_found ''C''), HeatmapService example_table) \<and>
   generate_monthly_price_matrix example_pandas (HeatmapService example_table) ''C''
     = (Inl (index_not_found ''C''), HeatmapService example_table) \<and>
   calculate_avg_monthly_profits_3y example_pandas (HeatmapService example_table) ''C''
     = (Inl (index_not_found ''C''), HeatmapService example_table) \<and>
   calculate_rank_percentile_4y (HeatmapService example_table) ''C''
     = (Inl (index_not_found ''C''), HeatmapService example_table) \<and>
   calculate_inverse_rank_percentile (HeatmapService example_table) ''C''
     = (Inl (index_not_found ''C''), HeatmapService example_table) \<and>
   calculate_monthly_rank_position example_pandas (HeatmapService example_table) ''C''
     = (Inl (index_not_found ''C''), HeatmapService example_table)"
proof -
  have h: "''C'' \<notin> set (columns (data (HeatmapService example_table)))"
    by (simp add: columns_def HeatmapService_def example_table_def)
  from h C5_unknown_index [where pd = example_pandas and forward_period = "''1M''", OF h]
  show ?thesis by blast
qed

text \<open>
  Claim C6.  For a name that is a column of the table, \<^verbatim>\<open>calculate_forward_returns\<close> raises
  \<^verbatim>\<open>ValueError("Invalid forward period: ...")\<close> (the spec's \<^verbatim>\<open>InvalidPeriodError\<close>) for
  every token outside \<^verbatim>\<open>1M, 3M, 6M, 1Y, 2Y, 3Y, 4Y\<close>, and leaves the service as it was.
  For a token of that set it never raises this error, whatever the name; for an index
  column and a consistent cache it returns a matrix.  (The name is checked first, so an
  unknown name with an unknown token raises the error of claim C5.)
\<close>

theorem C6_forward_period:
  "(index_name \<in> set (columns (data s)) \<longrightarrow>
      forward_period \<notin> {''1M'', ''3M'', ''6M'', ''1Y'', ''2Y'', ''3Y'', ''4Y''} \<longrightarrow>
      calculate_forward_returns pd s index_name forward_period
        = (Inl (invalid_forward_period forward_period), s)) \<and>
   (forward_period \<in> {''1M'', ''3M'', ''6M'', ''1Y'', ''2Y'', ''3Y'', ''4Y''} \<longrightarrow>
      (\<forall>p. fst (calculate_forward_returns pd s index_name forward_period)
             \<noteq> Inl (invalid_forward_period p))) \<and>
   (cache_inv pd s \<longrightarrow> index_name \<in> set (columns (data s)) \<longrightarrow> index_name \<noteq> ''DATE'' \<longrightarrow>
      forward_period \<in> {''1M'', ''3M'', ''6M'', ''1Y'', ''2Y'', ''3Y'', ''4Y''} \<longrightarrow>
      (\<exists>forward_returns s'. calculate_forward_returns pd s index_name forward_period
             = (Inr forward_returns, s')))"
proof (intro conjI impI allI)
  assume "index_name \<in> set (columns (data s))"
    and "forward_period \<notin> {''1M'', ''3M'', ''6M'', ''1Y'', ''2Y'', ''3Y'', ''4Y''}"
  then show "calculate_forward_returns pd s index_name forward_period
        = (Inl (invalid_forward_period forward_period), s)"
    using period_map_dom [of forward_period]
    by (simp add: calculate_forward_returns_def)
next
  fix p
  assume "forward_period \<in> {''1M'', ''3M'', ''6M'', ''1Y'', ''2Y'', ''3Y'', ''4Y''}"
  then obtain mf where mf: "period_map forward_period = Some mf"
    using period_map_dom [of forward_period] by auto
  show "fst (calculate_forward_returns pd s index_name forward_period)
             \<noteq> Inl (invalid_forward_period p)"
  proof (cases "index_name \<in> set (columns (data s))")
    case False
    then show ?thesis
      by (simp add: calculate_forward_returns_def index_not_found_neq_invalid)
  next
    case True
    obtain r s' where r: "calculate_monthly_average pd s index_name = (r, s')"
      by (cases "calculate_monthly_average pd s index_name")
    with calculate_monthly_average_no_ValueError [of pd s index_name]
    have "r \<noteq> Inl (ValueError m)" for m by simp
    with True mf r show ?thesis
      by (cases r) (auto simp: calculate_forward_returns_def invalid_forward_period_def Let_def)
  qed
next
  assume "cache_inv pd s" "index_name \<in> set (columns (data s))" "index_name \<noteq> ''DATE''"
    and "forward_period \<in> {''1M'', ''3M'', ''6M'', ''1Y'', ''2Y'', ''3Y'', ''4Y''}"
  moreover from this obtain mf where "period_map forward_period = Some mf"
    using period_map_dom [of forward_period] by auto
  moreover from calculation obtain s' where
    "calculate_monthly_average pd s index_name = (Inr (groupby_mean pd (data s) index_name), s')"
    using calculate_monthly_average_valid by blast
  ultimately show "\<exists>forward_returns s'. calculate_forward_returns pd s index_name forward_period
             = (Inr forward_returns, s')"
    by (simp add: calculate_forward_returns_def Let_def)
qed

text \<open>The tokens \<^verbatim>\<open>5Y\<close> and \<^verbatim>\<open>1Y\<close> on the example table.\<close>

theorem C6_forward_period_witness:
  "''A'' \<in> set (columns (data (HeatmapService example_table))) \<and>
   ''5Y'' \<notin> {''1M'', ''3M'', ''6M'', ''1Y'', ''2Y'', ''3Y'', ''4Y''} \<and>
   calculate_forward_returns example_pandas (HeatmapService example_table) ''A'' ''5Y''
     = (Inl (invalid_forward_period ''5Y''), HeatmapService example_table) \<and>
   ''1Y'' \<in> {''1M'', ''3M'', ''6M'', ''1Y'', ''2Y'', ''3Y'', ''4Y''} \<and>
   fst (calculate_forward_returns example_pandas (HeatmapService example_table) ''A'' ''1Y'')
     \<noteq> Inl (invalid_forward_period ''1Y'') \<and>
   cache_inv example_pandas (HeatmapService example_table) \<and>
   (\<exists>forward_returns s'. calculate_forward_returns example_pandas (HeatmapService example_table) ''A'' ''1Y''
             = (Inr forward_returns, s'))"
proof -
  have a: "''A'' \<in> set (columns (data (HeatmapService example_table)))"
    by (simp add: columns_def HeatmapService_def example_table_def)
  have b: "''5Y'' \<notin> {''1M'', ''3M'', ''6M'', ''1Y'', ''2Y'', ''3Y'', ''4Y''}" by simp
  have c: "''1Y'' \<in> {''1M'', ''3M'', ''6M'', ''1Y'', ''2Y'', ''3Y'', ''4Y''}" by simp
  have d: "''A'' \<noteq> ''DATE''" by simp
  from C6_forward_period [where index_name = "''A''" and s = "HeatmapService example_table"
      and forward_period = "''5Y''" and pd = example_pandas] a b
  have 1: "calculate_forward_returns example_pandas (HeatmapService example_table) ''A'' ''5Y''
     = (Inl (invalid_forward_period ''5Y''), HeatmapService example_table)" by blast
  from C6_forward_period [where index_name = "''A''" and s = "HeatmapService example_table"
      and forward_period = "''1Y''" and pd = example_pandas] a c d
    cache_inv_init [of example_pandas example_table]
  have 2: "fst (calculate_forward_returns example_pandas (HeatmapService example_table) ''A'' ''1Y'')
     \<noteq> Inl (invalid_forward_period ''1Y'')"
    and 3: "\<exists>forward_returns s'. calculate_forward_returns example_pandas (HeatmapService example_table) ''A'' ''1Y''
             = (Inr forward_returns, s')" by blast+
  from a b c 1 2 3 cache_inv_init [of example_pandas example_table] show ?thesis by blast
qed

subsection \<open>Float64 bounds for the percentile\<close>

lemma round_half_even_numeral: "round_half_even (numeral n) = numeral n"
  using round_half_even_of_int [of "numeral n"] by simp


lemma fl_nonneg_le_grid:
  assumes "0 \<le> x" and "x \<le> b" and "b = of_int m * 2 powi (eb - 52)"
    and "2 powi eb \<le> b" and "b < 2 powi (eb + 1)" and "- 1022 \<le> eb" and "eb \<le> 1022"
  shows "\<exists>y. fl x = Fin y \<and> 0 \<le> y \<and> y \<le> b"
proof (cases "x = 0")
  case True
  with assms(1,2) show ?thesis by (simp add: fl_0)
next
  case False
  with assms(1) have "0 < x" by simp
  from fl_le_grid [OF this assms(2-7)] show ?thesis .
qed

lemma grid_one: "(1::real) = of_int (2 ^ 52) * 2 powi (0 - 52)"
  by (simp add: power_int_minus)

lemma grid_hundred: "(100::real) = of_int (100 * 2 ^ 46) * 2 powi (6 - 52)"
  by (simp add: power_int_minus)

lemma grid_below_hundred: "(12799 / 128 ::real) = of_int (12799 * 2 ^ 39) * 2 powi (6 - 52)"
  by (simp add: power_int_minus)

lemma error_bound_unit: "(2::real) powi (0 - 54) \<le> 1 / 10000000000000000"
  by (simp add: power_int_minus)

lemma error_bound_128: "(2::real) powi (7 - 54) \<le> 1 / 100000000000000"
  by (simp add: power_int_minus)

lemma fl_unit: "0 \<le> x \<Longrightarrow> x \<le> 1 \<Longrightarrow> \<exists>y. fl x = Fin y \<and> 0 \<le> y \<and> y \<le> 1"
  by (rule fl_nonneg_le_grid [where m = "2 ^ 52" and eb = 0, OF _ _ grid_one]) simp_all

lemma fl_hundred: "0 \<le> x \<Longrightarrow> x \<le> 100 \<Longrightarrow> \<exists>y. fl x = Fin y \<and> 0 \<le> y \<and> y \<le> 100"
  by (rule fl_nonneg_le_grid [where m = "100 * 2 ^ 46" and eb = 6, OF _ _ grid_hundred]) simp_all

lemma fl_below_hundred:
  "0 \<le> x \<Longrightarrow> x \<le> 9999 / 100 \<Longrightarrow> \<exists>y. fl x = Fin y \<and> 0 \<le> y \<and> y < 100"
proof -
  assume a: "0 \<le> x" and b: "x \<le> 9999 / 100"
  then have c: "x \<le> 12799 / 128" by simp
  have "\<exists>y. fl x = Fin y \<and> 0 \<le> y \<and> y \<le> 12799 / 128"
    by (rule fl_nonneg_le_grid [where m = "12799 * 2 ^ 39" and eb = 6, OF a c grid_below_hundred]) simp_all
  then obtain y where "fl x = Fin y" and "0 \<le> y" and "y \<le> 12799 / 128" by blast
  then show ?thesis by auto
qed

lemma fl_error_unit:
  assumes "\<bar>x\<bar> < 1"
  shows "\<exists>y. fl x = Fin y \<and> \<bar>y - x\<bar> \<le> 1 / 10000000000000000"
proof -
  from assms have "\<bar>x\<bar> < 2 powi 0" by simp
  from fl_abs_error [OF this] obtain y where y: "fl x = Fin y" and e: "\<bar>y - x\<bar> \<le> 2 powi (0 - 54)"
    by auto
  from e error_bound_unit have "\<bar>y - x\<bar> \<le> 1 / 10000000000000000" by (rule order_trans)
  with y show ?thesis by blast
qed

lemma fl_error_128:
  assumes "\<bar>x\<bar> < 128"
  shows "\<exists>y. fl x = Fin y \<and> \<bar>y - x\<bar> \<le> 1 / 100000000000000"
proof -
  from assms have "\<bar>x\<bar> < 2 powi 7" by simp
  from fl_abs_error [OF this] obtain y where y: "fl x = Fin y" and e: "\<bar>y - x\<bar> \<le> 2 powi (7 - 54)"
    by auto
  from e error_bound_128 have "\<bar>y - x\<bar> \<le> 1 / 100000000000000" by (rule order_trans)
  with y show ?thesis by blast
qed

lemma quotient_below:
  assumes "cnt < tot" and "tot < (20000::nat)"
  shows "real cnt / real tot \<le> 19998 / 19999"
proof -
  from assms have "cnt * 19999 \<le> 19998 * tot" by arith
  then have "real (cnt * 19999) \<le> real (19998 * tot)" by (simp only: of_nat_le_iff)
  then have "real cnt * 19999 \<le> 19998 * real tot" by simp
  moreover from assms have "0 < real tot" by simp
  ultimately show ?thesis by (simp add: field_simps)
qed

lemma percentile_value:
  assumes "cnt < tot"
  shows "\<exists>q. fmul (fdiv (Fin (real cnt)) (Fin (real tot))) (Fin 100) = Fin q \<and>
           0 \<le> q \<and> q \<le> 100 \<and> (tot < 20000 \<longrightarrow> q * 100 < 9999 + 1 / 2)"
proof -
  define x where "x = real cnt / real tot"
  from assms have pos: "0 < real tot" by simp
  have x0: "0 \<le> x" by (simp add: x_def)
  from assms pos have x1: "x < 1" by (simp add: x_def)
  from x0 x1 have ax: "\<bar>x\<bar> < 1" by simp
  from fl_unit [of x] x0 x1 obtain y1 where y1: "fl x = Fin y1" and b1: "0 \<le> y1" "y1 \<le> 1"
    by auto
  from fl_error_unit [OF ax] y1 have e1: "\<bar>y1 - x\<bar> \<le> 1 / 10000000000000000" by auto
  from pos have d: "fdiv (Fin (real cnt)) (Fin (real tot)) = Fin y1"
    using y1 by (simp add: x_def)
  from b1 have r2: "0 \<le> y1 * 100" "y1 * 100 \<le> 100" by simp_all
  from fl_hundred [OF r2] obtain q where q: "fl (y1 * 100) = Fin q" and b2: "0 \<le> q" "q \<le> 100"
    by auto
  from r2 have "\<bar>y1 * 100\<bar> < 128" by simp
  from fl_error_128 [OF this] q have e2: "\<bar>q - y1 * 100\<bar> \<le> 1 / 100000000000000" by auto
  have m: "fmul (fdiv (Fin (real cnt)) (Fin (real tot))) (Fin 100) = Fin q"
    by (simp only: d fmul.simps q)
  have "q * 100 < 9999 + 1 / 2" if "tot < 20000"
  proof -
    from quotient_below [OF assms that] have "x \<le> 19998 / 19999" by (simp only: x_def)
    with e1 e2 show ?thesis by linarith
  qed
  with m b2 show ?thesis by blast
qed

lemma two_decimals:
  assumes "0 \<le> k" and "k \<le> 10000"
  shows "\<exists>x. fl (of_int k / 100) = Fin x \<and> 0 \<le> x \<and> x \<le> 100 \<and>
           (k \<le> 9999 \<longrightarrow> x < 100) \<and>
           round_half_even (x * 100) = k \<and>
           fround (fsub (Fin 100) (Fin x)) 2 = fl (of_int (10000 - k) / 100)"
proof -
  define d where "d = real_of_int k / 100"
  from assms have d0: "0 \<le> d" and d1: "d \<le> 100" by (simp_all add: d_def)
  from fl_hundred [OF d0 d1] obtain x where x: "fl d = Fin x" and bx: "0 \<le> x" "x \<le> 100"
    by auto
  from d0 d1 have "\<bar>d\<bar> < 128" by simp
  from fl_error_128 [OF this] x have ex: "\<bar>x - d\<bar> \<le> 1 / 100000000000000" by auto
  have lt: "x < 100" if "k \<le> 9999"
  proof -
    from that have "d \<le> 9999 / 100" by (simp add: d_def)
    from fl_below_hundred [OF d0 this] x show ?thesis by auto
  qed
  have kd: "real_of_int k = d * 100" by (simp add: d_def)
  have rk: "round_half_even (x * 100) = k"
  proof (rule round_half_even_eq)
    from ex kd show "real_of_int k - 1 / 2 < x * 100" by linarith
    from ex kd show "x * 100 < real_of_int k + 1 / 2" by linarith
  qed
  from bx have "\<bar>100 + - x\<bar> < 128" by simp
  from fl_error_128 [OF this] obtain z where z: "fl (100 + - x) = Fin z"
    and ez: "\<bar>z - (100 + - x)\<bar> \<le> 1 / 100000000000000" by auto
  have kz: "real_of_int (10000 - k) = 10000 - d * 100" by (simp add: d_def)
  have rz: "round_half_even (z * 100) = 10000 - k"
  proof (rule round_half_even_eq)
    from ex have x1: "x \<le> d + 1 / 100000000000000" and x2: "d - 1 / 100000000000000 \<le> x"
      by linarith+
    from ez have z1: "z \<le> 100 - x + 1 / 100000000000000"
      and z2: "100 - x - 1 / 100000000000000 \<le> z"
      by linarith+
    from x1 z2 show "real_of_int (10000 - k) - 1 / 2 < z * 100"
      unfolding kz by linarith
    from x2 z1 show "z * 100 < real_of_int (10000 - k) + 1 / 2"
      unfolding kz by linarith
  qed
  have "fround (fsub (Fin 100) (Fin x)) 2 = fl (of_int (round_half_even (z * 10 ^ 2)) / 10 ^ 2)"
    by (simp only: fsub_def fneg.simps fadd.simps z fround.simps)
  also have "\<dots> = fl (of_int (10000 - k) / 100)"
    using rz by simp
  finally have inv: "fround (fsub (Fin 100) (Fin x)) 2 = fl (of_int (10000 - k) / 100)" .
  from x bx lt rk inv show ?thesis
    unfolding d_def by blast
qed

lemma percentile_rounded:
  assumes "cnt < tot"
  shows "\<exists>x. fround (fmul (fdiv (Fin (real cnt)) (Fin (real tot))) (Fin 100)) 2 = Fin x \<and>
           0 \<le> x \<and> x \<le> 100 \<and> (tot < 20000 \<longrightarrow> x < 100) \<and>
           fround (Fin x) 2 = Fin x \<and>
           fround (fsub (Fin 100) (Fin x)) 2
             = fl (of_int (10000 - round_half_even (x * 100)) / 100)"
proof -
  from percentile_value [OF assms] obtain q where
    q: "fmul (fdiv (Fin (real cnt)) (Fin (real tot))) (Fin 100) = Fin q"
    and b: "0 \<le> q" "q \<le> 100" and s: "tot < 20000 \<longrightarrow> q * 100 < 9999 + 1 / 2"
    by blast
  define k where "k = round_half_even (q * 100)"
  from b have "real_of_int 0 \<le> q * 100" and "q * 100 \<le> real_of_int 10000" by simp_all
  then have k0: "0 \<le> k" and k1: "k \<le> 10000"
    unfolding k_def by (simp_all only: round_half_even_ge_int round_half_even_le_int)
  have ks: "k \<le> 9999" if "tot < 20000"
  proof -
    from s that have "q * 100 < real_of_int 9999 + 1 / 2" by simp
    then show ?thesis unfolding k_def by (rule round_half_even_le)
  qed
  from two_decimals [OF k0 k1] obtain x where
    x: "fl (of_int k / 100) = Fin x" and bx: "0 \<le> x" "x \<le> 100"
    and lt: "k \<le> 9999 \<longrightarrow> x < 100"
    and rk: "round_half_even (x * 100) = k"
    and inv: "fround (fsub (Fin 100) (Fin x)) 2 = fl (of_int (10000 - k) / 100)"
    by blast
  have p: "fround (fmul (fdiv (Fin (real cnt)) (Fin (real tot))) (Fin 100)) 2 = Fin x"
    unfolding q using x by (simp add: k_def)
  have idem: "fround (Fin x) 2 = Fin x"
    using x rk by simp
  from p bx lt ks idem inv rk show ?thesis by auto
qed

subsection \<open>Rank percentile\<close>

lemma fless_irrefl: "\<not> fless r r"
  by (cases r) simp_all

lemma fold_append_map_filter:
  "fold (\<lambda>col acc. if col = d then acc
                    else case f col of Some r \<Rightarrow> acc @ [r] | None \<Rightarrow> acc) cols acc0
     = acc0 @ List.map_filter (\<lambda>c. if c = d then None else f c) cols"
  by (induction cols arbitrary: acc0) (simp_all add: List.map_filter_simps split: option.splits)

lemma all_returns_loop_eq:
  "all_returns_loop t w =
     List.map_filter (\<lambda>c. if c = ''DATE'' then None else window_return t c w) (index_names t)"
  by (simp add: all_returns_loop_def columns_def fold_append_map_filter)

lemma length_map_filter:
  "length (List.map_filter g xs) = length (filter (\<lambda>x. g x \<noteq> None) xs)"
  by (induction xs) (simp_all add: List.map_filter_simps split: option.splits)

lemma length_filter_map_filter:
  "length (filter P (List.map_filter g xs)) =
     length (filter (\<lambda>x. case g x of None \<Rightarrow> False | Some r \<Rightarrow> P r) xs)"
  by (induction xs) (simp_all add: List.map_filter_simps split: option.splits)

lemma window_values_no_rows: "rows t = [] \<Longrightarrow> window_return t c w = None"
  by (simp add: window_return_def window_values_def window_rows_def)

lemma window_return_Some:
  "window_return t c w = Some r \<longleftrightarrow>
     2 \<le> length (window_values t c w) \<and>
     r = fsub (fdiv (last (window_values t c w)) (hd (window_values t c w))) (Fin 1)"
  by (auto simp: window_return_def Let_def)

lemma window_return_None: "window_return t c w = None \<longleftrightarrow> length (window_values t c w) < 2"
  by (auto simp: window_return_def Let_def)

lemma rank_percentile_formula:
  assumes "index_name \<in> set (columns (data s))" and "index_name \<noteq> ''DATE''"
  shows "calculate_rank_percentile_4y s index_name =
     (Inr (case window_return (data s) index_name (window_start (data s)) of
             None \<Rightarrow> None
           | Some cumulative_return \<Rightarrow>
               Some (fround
                 (fmul (fdiv
                    (Fin (real (length (filter (\<lambda>c. c \<noteq> index_name \<and> comparable (data s) c \<and>
                                                  return_less (data s) c cumulative_return)
                                          (index_names (data s))))))
                    (Fin (real (length (filter (comparable (data s)) (index_names (data s)))))))
                  (Fin 100)) 2)),
      s)"
proof (cases "window_return (data s) index_name (window_start (data s))")
  case None
  then have "length (window_values (data s) index_name (window_start (data s))) < 2"
    by (simp add: window_return_None)
  with None assms show ?thesis
    unfolding calculate_rank_percentile_4y_def Let_def window_start_def [symmetric]
    by simp
next
  case (Some cr)
  let ?t = "data s" and ?w = "window_start (data s)"
  from Some have len: "2 \<le> length (window_values ?t index_name ?w)"
    and cr: "cr = fsub (fdiv (last (window_values ?t index_name ?w))
                        (hd (window_values ?t index_name ?w))) (Fin 1)"
    by (simp_all add: window_return_Some)
  from Some have rows: "rows ?t \<noteq> []"
    using window_values_no_rows [of ?t index_name ?w] by auto
  from len have wr: "window_rows ?t ?w \<noteq> []"
    by (auto simp: window_values_def)
  from assms have mem: "index_name \<in> set (index_names ?t)"
    by (simp add: columns_def)
  have tot: "length (all_returns_loop ?t ?w) = length (filter (comparable ?t) (index_names ?t))"
    unfolding all_returns_loop_eq length_map_filter
    by (rule arg_cong [where f = length], rule filter_cong) (auto simp: comparable_def)
  have "index_name \<in> set (filter (comparable ?t) (index_names ?t))"
    using mem Some assms(2) by (simp add: comparable_def)
  then have pos: "length (all_returns_loop ?t ?w) \<noteq> 0"
    unfolding tot by (metis length_0_conv empty_iff empty_set)
  have cnt: "length (filter (\<lambda>r. fless r cr) (all_returns_loop ?t ?w)) =
      length (filter (\<lambda>c. c \<noteq> index_name \<and> comparable ?t c \<and> return_less ?t c cr)
                (index_names ?t))"
    unfolding all_returns_loop_eq length_filter_map_filter
    by (rule arg_cong [where f = length], rule filter_cong)
      (auto simp: comparable_def return_less_def Some fless_irrefl split: option.splits)
  have res: "calculate_rank_percentile_4y s index_name =
      (Inr (Some (fround (fmul (fdiv (Fin (real (length (filter (\<lambda>r. fless r cr)
                                                          (all_returns_loop ?t ?w)))))
                                     (Fin (real (length (all_returns_loop ?t ?w)))))
                               (Fin 100)) 2)), s)"
    unfolding calculate_rank_percentile_4y_def Let_def window_start_def [symmetric]
    using assms rows wr len pos
    by (simp add: cr [symmetric] del: fdiv.simps fmul.simps fround.simps)
  show ?thesis
    unfolding res cnt tot Some by simp
qed

lemma count_less_total:
  assumes "x \<in> set xs" and "P x"
  shows "length (filter (\<lambda>c. c \<noteq> x \<and> P c \<and> Q c) xs) < length (filter P xs)"
proof -
  have "length (filter (\<lambda>c. c \<noteq> x \<and> P c \<and> Q c) xs) \<le> length (filter (\<lambda>c. c \<noteq> x) (filter P xs))"
    unfolding filter_filter
    by (induction xs) auto
  also have "\<dots> < length (filter P xs)"
    using assms by (intro length_filter_less [of x]) auto
  finally show ?thesis .
qed

lemma rank_percentile_quotient:
  assumes "calculate_rank_percentile_4y s index_name = (Inr (Some p), s')"
  shows "s' = s \<and>
         (\<exists>lower. lower < length (filter (comparable (data s)) (index_names (data s))) \<and>
            p = fround (fmul (fdiv (Fin (real lower))
                   (Fin (real (length (filter (comparable (data s)) (index_names (data s)))))))
                 (Fin 100)) 2)"
proof -
  from assms have col: "index_name \<in> set (columns (data s))" and nd: "index_name \<noteq> ''DATE''"
    by (auto simp: calculate_rank_percentile_4y_def split: if_splits)
  let ?t = "data s"
  from rank_percentile_formula [OF col nd] assms obtain cr where
    wr: "window_return ?t index_name (window_start ?t) = Some cr"
    and p: "p = fround (fmul (fdiv
         (Fin (real (length (filter (\<lambda>c. c \<noteq> index_name \<and> comparable ?t c \<and> return_less ?t c cr)
                          (index_names ?t)))))
         (Fin (real (length (filter (comparable ?t) (index_names ?t)))))) (Fin 100)) 2"
    and s: "s' = s"
    by (auto split: option.splits)
  from col nd have mem: "index_name \<in> set (index_names ?t)"
    by (simp add: columns_def)
  from wr nd have cmp: "comparable ?t index_name"
    by (simp add: comparable_def)
  note lt = count_less_total [of index_name "index_names ?t" "comparable ?t"
      "\<lambda>c. return_less ?t c cr", OF mem cmp]
  from lt p s show ?thesis by blast
qed


lemma ex_window_start: "window_start example_table = 2016"
  by (simp add: window_start_def example_table_def example_row_def)

lemma ex_index_names: "index_names example_table = [''A'', ''B'']"
  by (simp add: example_table_def)

lemma ex_columns: "columns example_table = [''DATE'', ''A'', ''B'']"
  by (simp add: columns_def example_table_def)

lemma ex_window_A: "window_values example_table ''A'' 2016 = [Fin 100, Fin 104, Fin 150]"
  by (simp add: window_values_def window_rows_def example_table_def example_row_def
      yearly_frame_column_def)

lemma ex_window_B: "window_values example_table ''B'' 2016 = [Fin 64, Fin 80, Fin 48]"
  by (simp add: window_values_def window_rows_def example_table_def example_row_def
      yearly_frame_column_def)

lemma ex_return_A: "window_return example_table ''A'' 2016 = Some (Fin (1 / 2))"
  by (simp add: window_return_def ex_window_A fsub_def fl_simps)

lemma ex_return_B: "window_return example_table ''B'' 2016 = Some (Fin (- (1 / 4)))"
  by (simp add: window_return_def ex_window_B fsub_def fl_simps)

lemma percent_1_2: "fround (fmul (fdiv (Fin 1) (Fin 2)) (Fin 100)) 2 = Fin 50"
  by (simp add: fl_simps round_half_even_numeral)



lemma ex_rank_A:
  "calculate_rank_percentile_4y (HeatmapService example_table) ''A''
     = (Inr (Some (Fin 50)), HeatmapService example_table)"
proof -
  have a: "''A'' \<in> set (columns (data (HeatmapService example_table)))"
    by (simp add: HeatmapService_def ex_columns)
  have b: "''A'' \<noteq> ''DATE''" by simp
  have d: "data (HeatmapService example_table) = example_table"
    by (simp add: HeatmapService_def)
  from rank_percentile_formula [OF a b] percent_1_2 show ?thesis
    by (simp add: d ex_window_start ex_index_names comparable_def return_less_def
        ex_return_A ex_return_B del: fdiv.simps fmul.simps fround.simps)
qed







text \<open>
  Claim C10, amended.  A returned percentile is a float64 between 0 and 100, both
  included.  It is the rounded quotient of a count that is strictly below the number of
  comparable indices, since the target is in the denominator and never in the numerator;
  and it is below 100 whenever fewer than 20000 indices are comparable.
\<close>

theorem C10_rank_percentile_range:
  assumes "calculate_rank_percentile_4y s index_name = (Inr (Some p), s')"
  shows "(\<exists>x. p = Fin x \<and> 0 \<le> x \<and> x \<le> 100 \<and>
            (length (filter (comparable (data s)) (index_names (data s))) < 20000 \<longrightarrow> x < 100)) \<and>
         (\<exists>lower. lower < length (filter (comparable (data s)) (index_names (data s))) \<and>
            p = fround (fmul (fdiv (Fin (real lower))
                   (Fin (real (length (filter (comparable (data s)) (index_names (data s)))))))
                 (Fin 100)) 2)"
proof -
  from rank_percentile_quotient [OF assms] obtain lower where
    lt: "lower < length (filter (comparable (data s)) (index_names (data s)))"
    and p: "p = fround (fmul (fdiv (Fin (real lower))
                   (Fin (real (length (filter (comparable (data s)) (index_names (data s)))))))
                 (Fin 100)) 2"
    by blast
  from percentile_rounded [OF lt] p have
    "\<exists>x. p = Fin x \<and> 0 \<le> x \<and> x \<le> 100 \<and>
            (length (filter (comparable (data s)) (index_names (data s))) < 20000 \<longrightarrow> x < 100)"
    by auto
  with lt p show ?thesis by blast
qed

text \<open>
  Index \<^verbatim>\<open>A\<close> of the example table: the percentile is 50, and two indices are comparable.
\<close>

theorem C10_rank_percentile_range_witness:
  "calculate_rank_percentile_4y (HeatmapService example_table) ''A''
     = (Inr (Some (Fin 50)), HeatmapService example_table) \<and>
   length (filter (comparable (data (HeatmapService example_table)))
                  (index_names (data (HeatmapService example_table)))) < 20000 \<and>
   (\<exists>x. Fin 50 = Fin x \<and> 0 \<le> x \<and> x < 100)"
proof -
  have l: "length (filter (comparable (data (HeatmapService example_table)))
                  (index_names (data (HeatmapService example_table)))) < 20000"
    by (simp add: HeatmapService_def ex_index_names)
  from C10_rank_percentile_range [OF ex_rank_A] l ex_rank_A show ?thesis by blast
qed

lemma many_window_start: "window_start (many_indices_table n) = 2016"
  by (simp add: window_start_def many_indices_table_def)

lemma many_window_return:
  "window_return (many_indices_table n) c 2016 =
     Some (if c = ''Year'' then Fin 0 else if c = ''T'' then Fin (1 / 2) else Fin (1 / 4))"
  by (simp add: window_return_def window_values_def window_rows_def many_indices_table_def
      yearly_frame_column_def fsub_def fl_simps)

lemma many_comparable: "comparable (many_indices_table n) c \<longleftrightarrow> c \<noteq> ''DATE''"
  by (simp add: comparable_def many_window_start many_window_return)

lemma many_return_less:
  "return_less (many_indices_table n) c (Fin (1 / 2)) \<longleftrightarrow> c \<noteq> ''T''"
  by (simp add: return_less_def many_window_start many_window_return)

lemma many_index_names:
  "index_names (many_indices_table n) = ''T'' # map (\<lambda>i. CHR ''U'' # str_nat i) [0..<n]"
  by (simp add: many_indices_table_def)

lemma many_total:
  "length (filter (comparable (many_indices_table n)) (index_names (many_indices_table n))) = n + 1"
proof -
  have "filter (comparable (many_indices_table n)) (map (\<lambda>i. CHR ''U'' # str_nat i) [0..<n])
          = map (\<lambda>i. CHR ''U'' # str_nat i) [0..<n]"
    by (rule filter_True) (auto simp: many_comparable)
  then show ?thesis
    by (simp only: many_index_names filter.simps many_comparable) simp
qed

lemma many_count:
  "length (filter (\<lambda>c. c \<noteq> ''T'' \<and> comparable (many_indices_table n) c \<and>
                       return_less (many_indices_table n) c (Fin (1 / 2)))
             (index_names (many_indices_table n))) = n"
proof -
  have "filter (\<lambda>c. c \<noteq> ''T'' \<and> comparable (many_indices_table n) c \<and>
                       return_less (many_indices_table n) c (Fin (1 / 2)))
          (map (\<lambda>i. CHR ''U'' # str_nat i) [0..<n])
          = map (\<lambda>i. CHR ''U'' # str_nat i) [0..<n]"
    by (rule filter_True) (auto simp: many_comparable many_return_less)
  then show ?thesis
    by (simp only: many_index_names filter.simps) simp
qed

lemma many_rank:
  "calculate_rank_percentile_4y (HeatmapService (many_indices_table n)) ''T''
     = (Inr (Some (fround (fmul (fdiv (Fin (real n)) (Fin (real (n + 1)))) (Fin 100)) 2)),
        HeatmapService (many_indices_table n))"
proof -
  have d: "data (HeatmapService (many_indices_table n)) = many_indices_table n"
    by (simp add: HeatmapService_def)
  have a: "''T'' \<in> set (columns (data (HeatmapService (many_indices_table n))))"
    by (simp add: d columns_def many_index_names)
  have b: "''T'' \<noteq> ''DATE''" by simp
  from rank_percentile_formula [OF a b] show ?thesis
    unfolding d many_window_start many_window_return
    by (simp add: many_count many_total del: fdiv.simps fmul.simps fround.simps)
qed

lemma quotient_39999:
  "fdiv (Fin (real 39999)) (Fin (real (39999 + 1))) = Fin (9006974074759623 / 2 ^ 53)"
  using fl_eval [of "- 1" "39999 / 40000"] by (simp add: round_half_even_def)

lemma product_39999:
  "fmul (Fin (9006974074759623 / 2 ^ 53)) (Fin 100) = Fin (7036698495905955 / 2 ^ 46)"
  using fl_eval [of 6 "9006974074759623 / 2 ^ 53 * 100"] by (simp add: round_half_even_def)

lemma rounded_39999: "fround (Fin (7036698495905955 / 2 ^ 46)) 2 = Fin 100"
  by (simp add: round_half_even_def fl_simps)

text \<open>
  Claim C10 as stated fails.  With 40000 comparable indices of which the target is the
  best, the float64 quotient times 100 is 99.99749999999999, and
  \<^verbatim>\<open>round(99.99749999999999, 2)\<close> is 100.
\<close>

theorem C10_rounds_to_100_counterexample:
  "calculate_rank_percentile_4y (HeatmapService (many_indices_table 39999)) ''T''
     = (Inr (Some (Fin 100)), HeatmapService (many_indices_table 39999))"
  by (simp only: many_rank quotient_39999 product_39999 rounded_39999)

text \<open>
  Claim C4, amended.  Whenever \<^verbatim>\<open>calculate_rank_percentile_4y\<close> returns a value \<open>p\<close>, it
  is a float64 between 0 and 100 that rounding to two decimals leaves as it is: the
  float64 nearest to \<open>k / 100\<close> for the integer \<open>k = round_half_even (p * 100)\<close>.
  \<^verbatim>\<open>calculate_inverse_rank_percentile\<close> then returns the float64 nearest to
  \<open>(10000 - k) / 100\<close>, the two-decimal number \<open>100 - k / 100\<close>.  Whenever the percentile is
  \<^verbatim>\<open>None\<close>, so is the inverse.
\<close>

theorem C4_inverse_rank_percentile:
  "(\<forall>p s'. calculate_rank_percentile_4y s index_name = (Inr (Some p), s') \<longrightarrow>
       (\<exists>x. p = Fin x \<and> 0 \<le> x \<and> x \<le> 100 \<and> fround p 2 = p \<and>
          calculate_inverse_rank_percentile s index_name
            = (Inr (Some (fl (of_int (10000 - round_half_even (x * 100)) / 100))), s'))) \<and>
   (\<forall>s'. calculate_rank_percentile_4y s index_name = (Inr None, s') \<longrightarrow>
       calculate_inverse_rank_percentile s index_name = (Inr None, s'))"
proof (intro conjI allI impI)
  fix p s'
  assume r: "calculate_rank_percentile_4y s index_name = (Inr (Some p), s')"
  from rank_percentile_quotient [OF r] obtain lower where
    lt: "lower < length (filter (comparable (data s)) (index_names (data s)))"
    and p: "p = fround (fmul (fdiv (Fin (real lower))
                   (Fin (real (length (filter (comparable (data s)) (index_names (data s)))))))
                 (Fin 100)) 2"
    by blast
  from percentile_rounded [OF lt] p obtain x where
    x: "p = Fin x" and b: "0 \<le> x" "x \<le> 100" and idem: "fround (Fin x) 2 = Fin x"
    and inv: "fround (fsub (Fin 100) (Fin x)) 2
             = fl (of_int (10000 - round_half_even (x * 100)) / 100)"
    by auto
  have "calculate_inverse_rank_percentile s index_name
      = (Inr (Some (fround (fsub (Fin 100) p) 2)), s')"
    using r by (simp add: calculate_inverse_rank_percentile_def)
  with x b idem inv
  show "\<exists>x. p = Fin x \<and> 0 \<le> x \<and> x \<le> 100 \<and> fround p 2 = p \<and>
          calculate_inverse_rank_percentile s index_name
            = (Inr (Some (fl (of_int (10000 - round_half_even (x * 100)) / 100))), s')"
    by (simp del: fround.simps)
next
  fix s'
  assume "calculate_rank_percentile_4y s index_name = (Inr None, s')"
  then show "calculate_inverse_rank_percentile s index_name = (Inr None, s')"
    by (simp add: calculate_inverse_rank_percentile_def)
qed

text \<open>
  Index \<^verbatim>\<open>A\<close> of the example table has the percentile 50 and the inverse percentile 50.
\<close>

theorem C4_inverse_rank_percentile_witness:
  "calculate_rank_percentile_4y (HeatmapService example_table) ''A''
     = (Inr (Some (Fin 50)), HeatmapService example_table) \<and>
   calculate_inverse_rank_percentile (HeatmapService example_table) ''A''
     = (Inr (Some (Fin 50)), HeatmapService example_table)"
  using C4_inverse_rank_percentile [of "HeatmapService example_table" "''A''"] ex_rank_A
  by (auto simp: round_half_even_numeral fl_simps)

lemma seven_window_start: "window_start seven_table = 2016"
  by (simp add: window_start_def seven_table_def)

lemma seven_index_names:
  "index_names seven_table = [''T'', ''L'', ''H1'', ''H2'', ''H3'', ''H4'', ''H5'']"
  by (simp add: seven_table_def)

lemma seven_window_return:
  "window_return seven_table c 2016 =
     Some (if c = ''Year'' then Fin 0 else if c = ''T'' then Fin (1 / 2)
           else if c = ''L'' then Fin (1 / 4) else Fin 1)"
  by (simp add: window_return_def window_values_def window_rows_def seven_table_def
      yearly_frame_column_def fsub_def fl_simps)

lemma quotient_1_7: "fdiv (Fin 1) (Fin 7) = Fin (5146971002709138 / 2 ^ 55)"
  using fl_eval [of "- 3" "1 / 7"] by (simp add: round_half_even_def)

lemma product_1_7:
  "fmul (Fin (5146971002709138 / 2 ^ 55)) (Fin 100) = Fin (8042142191733028 / 2 ^ 49)"
  using fl_eval [of 3 "5146971002709138 / 2 ^ 55 * 100"] by (simp add: round_half_even_def)

lemma rounded_1_7:
  "fround (Fin (8042142191733028 / 2 ^ 49)) 2 = Fin (8044554834390548 / 2 ^ 49)"
  using fl_1429 by (simp add: round_half_even_def)

lemma difference_1429:
  "fsub (Fin 100) (Fin (8044554834390548 / 2 ^ 49)) = Fin (6031305063467582 / 2 ^ 46)"
  using fl_100_minus by (simp add: fsub_def)

lemma rounded_8571:
  "fround (Fin (6031305063467582 / 2 ^ 46)) 2 = Fin (6031305063467581 / 2 ^ 46)"
  using fl_8571 by (simp add: round_half_even_def)

lemma seven_rank:
  "calculate_rank_percentile_4y (HeatmapService seven_table) ''T''
     = (Inr (Some (Fin (8044554834390548 / 2 ^ 49))), HeatmapService seven_table)"
proof -
  have d: "data (HeatmapService seven_table) = seven_table"
    by (simp add: HeatmapService_def)
  have a: "''T'' \<in> set (columns (data (HeatmapService seven_table)))"
    by (simp add: d columns_def seven_index_names)
  have b: "''T'' \<noteq> ''DATE''" by simp
  have "calculate_rank_percentile_4y (HeatmapService seven_table) ''T''
     = (Inr (Some (fround (fmul (fdiv (Fin 1) (Fin 7)) (Fin 100)) 2)), HeatmapService seven_table)"
    using rank_percentile_formula [OF a b]
    unfolding d seven_window_start seven_window_return
    by (simp add: seven_index_names comparable_def return_less_def seven_window_start
        seven_window_return del: fdiv.simps fmul.simps fround.simps)
  then show ?thesis
    by (simp only: quotient_1_7 product_1_7 rounded_1_7)
qed

text \<open>
  Claim C4 as stated fails.  In a table of seven indices where one has a lower return
  than \<^verbatim>\<open>T\<close>, the percentile of \<^verbatim>\<open>T\<close> is 14.29 and the inverse percentile is 85.71,
  while the float64 difference \<^verbatim>\<open>100 - 14.29\<close> is 85.71000000000001, the next float64
  above 85.71.
\<close>

theorem C4_not_the_difference_counterexample:
  "calculate_rank_percentile_4y (HeatmapService seven_table) ''T''
     = (Inr (Some (Fin (8044554834390548 / 2 ^ 49))), HeatmapService seven_table) \<and>
   fl (1429 / 100) = Fin (8044554834390548 / 2 ^ 49) \<and>
   calculate_inverse_rank_percentile (HeatmapService seven_table) ''T''
     = (Inr (Some (Fin (6031305063467581 / 2 ^ 46))), HeatmapService seven_table) \<and>
   fl (8571 / 100) = Fin (6031305063467581 / 2 ^ 46) \<and>
   fsub (Fin 100) (Fin (8044554834390548 / 2 ^ 49)) = Fin (6031305063467582 / 2 ^ 46) \<and>
   Fin (6031305063467581 / 2 ^ 46) \<noteq> fsub (Fin 100) (Fin (8044554834390548 / 2 ^ 49))"
proof -
  have inv: "calculate_inverse_rank_percentile (HeatmapService seven_table) ''T''
     = (Inr (Some (Fin (6031305063467581 / 2 ^ 46))), HeatmapService seven_table)"
    unfolding calculate_inverse_rank_percentile_def seven_rank
    by (simp only: prod.case sum.case option.case difference_1429 rounded_8571)
  have ne: "Fin (6031305063467581 / 2 ^ 46) \<noteq> fsub (Fin 100) (Fin (8044554834390548 / 2 ^ 49))"
    unfolding difference_1429 by simp
  from seven_rank fl_1429 inv fl_8571 difference_1429 ne show ?thesis
    by (intro conjI)
qed

subsection \<open>Forward returns\<close>

lemma distinct_keys_groupby_mean: "distinct (map fst (groupby_mean pd t n))"
  by (simp only: map_fst_groupby_mean distinct_sort distinct_remdups)

lemma matrix_get_fold_put_nth:
  assumes "distinct (map fst kvs)" and "i < length kvs"
  shows "matrix_get (fold (\<lambda>(idx, v) m. matrix_put m idx v) kvs Map.empty)
           (str_int (fst (fst (kvs ! i)))) (str_int (snd (fst (kvs ! i)))) = Some (snd (kvs ! i))"
proof -
  from assms(2) have "(fst (kvs ! i), snd (kvs ! i)) \<in> set kvs" by simp
  with assms(1) have "map_of kvs (fst (kvs ! i)) = Some (snd (kvs ! i))"
    by (rule map_of_is_SomeI)
  with matrix_get_fold_put [OF assms(1), of Map.empty "fst (fst (kvs ! i))" "snd (fst (kvs ! i))"]
  show ?thesis by simp
qed

lemma fold_put_cells:
  "fold (\<lambda>(i, (idx, cur)) m. matrix_put m idx (cell i cur)) (enumerate n ml) m0 =
   fold (\<lambda>(idx, v) m. matrix_put m idx v)
     (map (\<lambda>(i, (idx, cur)). (idx, cell i cur)) (enumerate n ml)) m0"
  by (induction ml arbitrary: n m0) (simp_all add: case_prod_beta)

lemma forward_returns_cells:
  assumes "cache_inv pd s" and "index_name \<in> set (columns (data s))" and "index_name \<noteq> ''DATE''"
    and "period_map forward_period = Some h"
  shows "\<exists>fr s'. calculate_forward_returns pd s index_name forward_period = (Inr fr, s') \<and>
           calculate_monthly_average pd s index_name
             = (Inr (groupby_mean pd (data s) index_name), s') \<and>
           (\<forall>i < length (groupby_mean pd (data s) index_name).
              matrix_get fr (str_int (fst (fst (groupby_mean pd (data s) index_name ! i))))
                            (str_int (snd (fst (groupby_mean pd (data s) index_name ! i))))
                = Some (forward_cell (groupby_mean pd (data s) index_name) h i
                          (snd (groupby_mean pd (data s) index_name ! i))))"
proof -
  let ?ml = "groupby_mean pd (data s) index_name"
  let ?kvs = "map (\<lambda>(i, (idx, cur)). (idx, forward_cell ?ml h i cur)) (enumerate 0 ?ml)"
  from calculate_monthly_average_valid [OF assms(1-3)] obtain s' where
    run: "calculate_monthly_average pd s index_name = (Inr ?ml, s')" by blast
  have keys: "map fst ?kvs = map fst ?ml"
    by (rule nth_equalityI) (simp_all add: case_prod_beta nth_enumerate_eq)
  have dist: "distinct (map fst ?kvs)"
    by (simp only: keys distinct_keys_groupby_mean)
  have nth: "?kvs ! i = (fst (?ml ! i), forward_cell ?ml h i (snd (?ml ! i)))" if "i < length ?ml" for i
    using that by (simp add: case_prod_beta nth_enumerate_eq)
  have res: "calculate_forward_returns pd s index_name forward_period =
      (Inr (fold (\<lambda>(idx, v) m. matrix_put m idx v) ?kvs Map.empty), s')"
    using assms(2,4) run by (simp add: calculate_forward_returns_def Let_def fold_put_cells)
  have "matrix_get (fold (\<lambda>(idx, v) m. matrix_put m idx v) ?kvs Map.empty)
          (str_int (fst (fst (?ml ! i)))) (str_int (snd (fst (?ml ! i))))
        = Some (forward_cell ?ml h i (snd (?ml ! i)))" if "i < length ?ml" for i
  proof -
    from that have "i < length ?kvs" by simp
    from matrix_get_fold_put_nth [OF dist this] nth [OF that] show ?thesis by simp
  qed
  with res run show ?thesis by blast
qed

text \<open>
  Claim C3, amended.  For an index column, a consistent cache and a recognised horizon of
  \<open>h\<close> months, the cell of bucket \<open>i\<close> in the matrix of \<^verbatim>\<open>calculate_forward_returns\<close> is
  \<open>monthly[i + h] / monthly[i] - 1\<close>, computed in float64 and rounded to four decimals,
  when both buckets exist, both values are present and the current value is not zero,
  and \<^verbatim>\<open>None\<close> otherwise; so the last \<open>h\<close> buckets are \<^verbatim>\<open>None\<close>.  Here \<open>monthly\<close> is the
  series that \<^verbatim>\<open>calculate_monthly_average\<close> returns for the index.
\<close>

theorem C3_forward_returns:
  assumes "cache_inv pd s" and "index_name \<in> set (columns (data s))" and "index_name \<noteq> ''DATE''"
    and "period_map forward_period = Some h"
  shows "\<exists>monthly s' fr.
     calculate_monthly_average pd s index_name = (Inr monthly, s') \<and>
     calculate_forward_returns pd s index_name forward_period = (Inr fr, s') \<and>
     (\<forall>i < length monthly.
        matrix_get fr (str_int (fst (fst (monthly ! i)))) (str_int (snd (fst (monthly ! i))))
          = Some (if i + h < length monthly \<and> \<not> isna (snd (monthly ! i)) \<and>
                     \<not> isna (snd (monthly ! (i + h))) \<and> snd (monthly ! i) \<noteq> Fin 0
                  then Some (fround (fsub (fdiv (snd (monthly ! (i + h))) (snd (monthly ! i)))
                                          (Fin 1)) 4)
                  else None)) \<and>
     (\<forall>i < length monthly. length monthly \<le> i + h \<longrightarrow>
        matrix_get fr (str_int (fst (fst (monthly ! i)))) (str_int (snd (fst (monthly ! i))))
          = Some None)"
proof -
  let ?ml = "groupby_mean pd (data s) index_name"
  from forward_returns_cells [OF assms] obtain fr s' where
    fr: "calculate_forward_returns pd s index_name forward_period = (Inr fr, s')"
    and ma: "calculate_monthly_average pd s index_name = (Inr ?ml, s')"
    and cells: "\<And>i. i < length ?ml \<Longrightarrow>
       matrix_get fr (str_int (fst (fst (?ml ! i)))) (str_int (snd (fst (?ml ! i))))
         = Some (forward_cell ?ml h i (snd (?ml ! i)))"
    by blast
  have 1: "\<forall>i < length ?ml.
        matrix_get fr (str_int (fst (fst (?ml ! i)))) (str_int (snd (fst (?ml ! i))))
          = Some (if i + h < length ?ml \<and> \<not> isna (snd (?ml ! i)) \<and>
                     \<not> isna (snd (?ml ! (i + h))) \<and> snd (?ml ! i) \<noteq> Fin 0
                  then Some (fround (fsub (fdiv (snd (?ml ! (i + h))) (snd (?ml ! i)))
                                          (Fin 1)) 4)
                  else None)"
    using cells by (simp add: forward_cell_def Let_def del: fround.simps fdiv.simps)
  have 2: "\<forall>i < length ?ml. length ?ml \<le> i + h \<longrightarrow>
        matrix_get fr (str_int (fst (fst (?ml ! i)))) (str_int (snd (fst (?ml ! i))))
          = Some None"
    using cells by (simp add: forward_cell_def Let_def del: fround.simps fdiv.simps)
  from ma fr 1 2 show ?thesis by blast
qed

lemma ex_monthly_B:
  "groupby_mean example_pandas example_table ''B''
     = [((2020, 1), Fin 64), ((2020, 2), Fin 80), ((2020, 3), Fin 48)]"
  by (simp add: example_table_def example_row_def groupby_mean_def group_values_def
      monthly_frame_column_def example_pandas_def mean_skipna_def year_month_def fl_simps)

lemma thirds_monthly:
  "groupby_mean example_pandas thirds_table ''A'' = [((2020, 1), Fin 3), ((2020, 2), Fin 4)]"
  by (simp add: thirds_table_def groupby_mean_def group_values_def monthly_frame_column_def
      example_pandas_def mean_skipna_def year_month_def fl_simps)

lemma thirds_columns: "columns thirds_table = [''DATE'', ''A'']"
  by (simp add: columns_def thirds_table_def)

lemma str_int_2020: "str_int 2020 = ''2020''"
  by code_simp

lemma str_int_1: "str_int 1 = ''1''"
  by code_simp

lemma str_int_2: "str_int 2 = ''2''"
  by code_simp

lemma str_int_3: "str_int 3 = ''3''"
  by code_simp

lemma period_1M: "period_map ''1M'' = Some 1"
  by (simp add: period_map_def)

lemma forward_80_64: "fround (fsub (fdiv (Fin 80) (Fin 64)) (Fin 1)) 4 = Fin (1 / 4)"
  by (simp add: fsub_def fl_simps round_half_even_numeral)

text \<open>
  Index \<^verbatim>\<open>B\<close> of the example table with the horizon \<^verbatim>\<open>1M\<close>: January has
  \<open>80 / 64 - 1 = 0.25\<close>, and March, the last bucket, has \<^verbatim>\<open>None\<close>.
\<close>

theorem C3_forward_returns_witness:
  "cache_inv example_pandas (HeatmapService example_table) \<and>
   ''B'' \<in> set (columns (data (HeatmapService example_table))) \<and> ''B'' \<noteq> ''DATE'' \<and>
   period_map ''1M'' = Some 1 \<and>
   (\<exists>s' fr.
      calculate_monthly_average example_pandas (HeatmapService example_table) ''B''
        = (Inr [((2020, 1), Fin 64), ((2020, 2), Fin 80), ((2020, 3), Fin 48)], s') \<and>
      calculate_forward_returns example_pandas (HeatmapService example_table) ''B'' ''1M''
        = (Inr fr, s') \<and>
      matrix_get fr ''2020'' ''1'' = Some (Some (Fin (1 / 4))) \<and>
      matrix_get fr ''2020'' ''3'' = Some None)"
proof -
  let ?s = "HeatmapService example_table"
  have d: "data ?s = example_table" by (simp add: HeatmapService_def)
  have a: "''B'' \<in> set (columns (data ?s))" by (simp add: d ex_columns)
  have b: "''B'' \<noteq> ''DATE''" by simp
  have ci: "cache_inv example_pandas ?s" by (rule cache_inv_init)
  from C3_forward_returns [OF ci a b period_1M] obtain monthly s' fr where
    ma: "calculate_monthly_average example_pandas ?s ''B'' = (Inr monthly, s')"
    and fr: "calculate_forward_returns example_pandas ?s ''B'' ''1M'' = (Inr fr, s')"
    and cells: "\<And>i. i < length monthly \<Longrightarrow>
        matrix_get fr (str_int (fst (fst (monthly ! i)))) (str_int (snd (fst (monthly ! i))))
          = Some (if i + 1 < length monthly \<and> \<not> isna (snd (monthly ! i)) \<and>
                     \<not> isna (snd (monthly ! (i + 1))) \<and> snd (monthly ! i) \<noteq> Fin 0
                  then Some (fround (fsub (fdiv (snd (monthly ! (i + 1))) (snd (monthly ! i)))
                                          (Fin 1)) 4)
                  else None)"
    by blast
  from calculate_monthly_average_valid [OF ci a b] ma
  have m: "monthly = [((2020, 1), Fin 64), ((2020, 2), Fin 80), ((2020, 3), Fin 48)]"
    by (auto simp: d ex_monthly_B)
  from cells [of 0] forward_80_64 have 1: "matrix_get fr ''2020'' ''1'' = Some (Some (Fin (1 / 4)))"
    by (simp add: m str_int_2020 str_int_1 del: fround.simps fdiv.simps)
  from cells [of 2] have 2: "matrix_get fr ''2020'' ''3'' = Some None"
    by (simp add: m str_int_2020 str_int_3)
  from ci a b period_1M ma fr 1 2 show ?thesis
    unfolding m by blast
qed

lemma quotient_4_3: "fdiv (Fin 4) (Fin 3) = Fin (6004799503160661 / 2 ^ 52)"
  using fl_eval [of 0 "4 / 3"] by (simp add: round_half_even_def)

lemma difference_4_3:
  "fsub (Fin (6004799503160661 / 2 ^ 52)) (Fin 1) = Fin (6004799503160660 / 2 ^ 54)"
  using fl_eval [of "- 2" "6004799503160661 / 2 ^ 52 - 1"]
  by (simp add: fsub_def round_half_even_def)

lemma fl_3333: "fl (3333 / 10000) = Fin (6004199023210345 / 2 ^ 54)"
  using fl_eval [of "- 2" "3333 / 10000"] by (simp add: round_half_even_def)

lemma rounded_4_3:
  "fround (Fin (6004799503160660 / 2 ^ 54)) 4 = Fin (6004199023210345 / 2 ^ 54)"
  using fl_3333 by (simp add: round_half_even_def)

text \<open>
  Claim C3 as stated fails: the cell holds the rounded value.  With the monthly averages
  3 and 4 the float64 value of \<open>4 / 3 - 1\<close> is 0.33333333333333326, and the cell is 0.3333.
\<close>

theorem C3_unrounded_counterexample:
  "\<exists>s' fr.
      calculate_monthly_average example_pandas (HeatmapService thirds_table) ''A''
        = (Inr [((2020, 1), Fin 3), ((2020, 2), Fin 4)], s') \<and>
      calculate_forward_returns example_pandas (HeatmapService thirds_table) ''A'' ''1M''
        = (Inr fr, s') \<and>
      matrix_get fr ''2020'' ''1'' = Some (Some (Fin (6004199023210345 / 2 ^ 54))) \<and>
      fl (3333 / 10000) = Fin (6004199023210345 / 2 ^ 54) \<and>
      fsub (fdiv (Fin 4) (Fin 3)) (Fin 1) = Fin (6004799503160660 / 2 ^ 54) \<and>
      Fin (6004199023210345 / 2 ^ 54) \<noteq> fsub (fdiv (Fin 4) (Fin 3)) (Fin 1)"
proof -
  let ?s = "HeatmapService thirds_table"
  have d: "data ?s = thirds_table" by (simp add: HeatmapService_def)
  have a: "''A'' \<in> set (columns (data ?s))" by (simp add: d thirds_columns)
  have b: "''A'' \<noteq> ''DATE''" by simp
  have ci: "cache_inv example_pandas ?s" by (rule cache_inv_init)
  have u: "fsub (fdiv (Fin 4) (Fin 3)) (Fin 1) = Fin (6004799503160660 / 2 ^ 54)"
    by (simp only: quotient_4_3 difference_4_3)
  have c: "fround (fsub (fdiv (Fin 4) (Fin 3)) (Fin 1)) 4 = Fin (6004199023210345 / 2 ^ 54)"
    by (simp only: u rounded_4_3)
  have ne: "Fin (6004199023210345 / 2 ^ 54) \<noteq> fsub (fdiv (Fin 4) (Fin 3)) (Fin 1)"
    unfolding u by simp
  from forward_returns_cells [OF ci a b period_1M] obtain fr s' where
    fr: "calculate_forward_returns example_pandas ?s ''A'' ''1M'' = (Inr fr, s')"
    and ma: "calculate_monthly_average example_pandas ?s ''A''
               = (Inr (groupby_mean example_pandas (data ?s) ''A''), s')"
    and cells: "\<And>i. i < length (groupby_mean example_pandas (data ?s) ''A'') \<Longrightarrow>
       matrix_get fr (str_int (fst (fst (groupby_mean example_pandas (data ?s) ''A'' ! i))))
                     (str_int (snd (fst (groupby_mean example_pandas (data ?s) ''A'' ! i))))
         = Some (forward_cell (groupby_mean example_pandas (data ?s) ''A'') 1 i
                   (snd (groupby_mean example_pandas (data ?s) ''A'' ! i)))"
    by blast
  from cells [of 0] c
  have cell: "matrix_get fr ''2020'' ''1'' = Some (Some (Fin (6004199023210345 / 2 ^ 54)))"
    by (simp add: d thirds_monthly str_int_2020 str_int_1 forward_cell_def
        del: fround.simps fdiv.simps)
  from ma have ma': "calculate_monthly_average example_pandas ?s ''A''
        = (Inr [((2020, 1), Fin 3), ((2020, 2), Fin 4)], s')"
    by (simp add: d thirds_monthly)
  from ma' fr cell fl_3333 u ne show ?thesis by blast
qed

subsection \<open>Monthly rank position\<close>

lemma returns_loop_state:
  assumes "cache_inv pd st" and "set cols \<subseteq> set (columns (data st))"
  shows "\<exists>st'. fold (\<lambda>col (all_indices_returns, st).
             if col = ''DATE'' then (all_indices_returns, st)
             else case calculate_monthly_average pd st col of
                    (Inl e, st') \<Rightarrow> (all_indices_returns, st')
                  | (Inr col_monthly_avg, st') \<Rightarrow>
                      (AList.update col (calculate_mom_returns col_monthly_avg) all_indices_returns,
                       st'))
           cols (acc, st) = (returns_dict pd (data st) cols acc, st') \<and>
         cache_inv pd st' \<and> data st' = data st"
  using assms
proof (induction cols arbitrary: acc st)
  case Nil
  then show ?case by (simp add: returns_dict_def)
next
  case (Cons col cols)
  show ?case
  proof (cases "col = ''DATE''")
    case True
    with Cons.IH [of st acc] Cons.prems show ?thesis
      by (simp add: returns_dict_def)
  next
    case False
    from Cons.prems have "col \<in> set (columns (data st))" by simp
    from calculate_monthly_average_valid [OF Cons.prems(1) this False] obtain st1 where
      run: "calculate_monthly_average pd st col = (Inr (groupby_mean pd (data st) col), st1)"
      and d: "data st1 = data st" and inv: "cache_inv pd st1" by blast
    from Cons.prems(2) d have "set cols \<subseteq> set (columns (data st1))" by simp
    from Cons.IH [OF inv this,
        of "AList.update col (calculate_mom_returns (groupby_mean pd (data st) col)) acc"]
    show ?thesis
      using False run d by (simp add: returns_dict_def)
  qed
qed

lemma all_indices_returns_loop_eq:
  assumes "cache_inv pd s"
  shows "\<exists>s'. all_indices_returns_loop pd s = (returns_dict pd (data s) (columns (data s)) [], s') \<and>
           cache_inv pd s' \<and> data s' = data s"
  unfolding all_indices_returns_loop_def
  using returns_loop_state [OF assms, of "columns (data s)" "[]"] by simp

lemma map_of_returns_dict:
  "map_of (returns_dict pd t cols acc) c =
     (if c \<in> set cols \<and> c \<noteq> ''DATE'' then Some (calculate_mom_returns (groupby_mean pd t c))
      else map_of acc c)"
  by (induction cols arbitrary: acc) (auto simp: returns_dict_def AList.update_conv')

lemma distinct_returns_dict:
  "distinct (map fst acc) \<Longrightarrow> distinct (map fst (returns_dict pd t cols acc))"
  by (induction cols arbitrary: acc) (simp_all add: returns_dict_def AList.distinct_update)

lemma in_returns_dict:
  "(c, r) \<in> set (returns_dict pd t cols []) \<longleftrightarrow>
     c \<in> set cols \<and> c \<noteq> ''DATE'' \<and> r = calculate_mom_returns (groupby_mean pd t c)"
proof -
  have "distinct (map fst (returns_dict pd t cols []))"
    by (rule distinct_returns_dict) simp
  then have "(c, r) \<in> set (returns_dict pd t cols []) \<longleftrightarrow> map_of (returns_dict pd t cols []) c = Some r"
    by simp
  then show ?thesis
    by (auto simp: map_of_returns_dict)
qed

lemma returns_dict_as_map:
  "returns_dict pd t cols [] =
     map (\<lambda>c. (c, calculate_mom_returns (groupby_mean pd t c))) (map fst (returns_dict pd t cols []))"
proof -
  have "map (\<lambda>p. (fst p, calculate_mom_returns (groupby_mean pd t (fst p)))) (returns_dict pd t cols [])
          = map (\<lambda>p. p) (returns_dict pd t cols [])"
    by (rule map_cong) (auto simp: in_returns_dict)
  then show ?thesis by (simp add: comp_def)
qed

lemma keys_returns_dict:
  "set (map fst (returns_dict pd t cols [])) = {c \<in> set cols. c \<noteq> ''DATE''}"
proof (intro set_eqI iffI)
  fix c
  assume "c \<in> set (map fst (returns_dict pd t cols []))"
  then obtain r where "(c, r) \<in> set (returns_dict pd t cols [])" by auto
  then show "c \<in> {c \<in> set cols. c \<noteq> ''DATE''}"
    by (simp add: in_returns_dict)
next
  fix c
  assume "c \<in> {c \<in> set cols. c \<noteq> ''DATE''}"
  then have "(c, calculate_mom_returns (groupby_mean pd t c)) \<in> set (returns_dict pd t cols [])"
    by (simp add: in_returns_dict)
  then show "c \<in> set (map fst (returns_dict pd t cols []))"
    by force
qed

lemma count_returns_dict:
  "length (filter Q (returns_dict pd t (columns t) [])) =
     length (filter (\<lambda>c. c \<noteq> ''DATE'' \<and> Q (c, calculate_mom_returns (groupby_mean pd t c)))
               (remdups (index_names t)))"
proof -
  let ?D = "returns_dict pd t (columns t) []"
  let ?f = "\<lambda>c. (c, calculate_mom_returns (groupby_mean pd t c))"
  have d: "distinct (map fst ?D)"
    by (rule distinct_returns_dict) simp
  have "length (filter Q ?D) = length (filter Q (map ?f (map fst ?D)))"
    using returns_dict_as_map [of pd t "columns t"] by simp
  also have "\<dots> = length (filter (Q \<circ> ?f) (map fst ?D))"
    by (simp only: filter_map length_map)
  also have "\<dots> = card ({c. (Q \<circ> ?f) c} \<inter> set (map fst ?D))"
    using d by (rule distinct_length_filter)
  also have "{c. (Q \<circ> ?f) c} \<inter> set (map fst ?D) =
      {c. c \<noteq> ''DATE'' \<and> Q (?f c)} \<inter> set (remdups (index_names t))"
    unfolding keys_returns_dict by (auto simp: columns_def)
  also have "card \<dots> = length (filter (\<lambda>c. c \<noteq> ''DATE'' \<and> Q (?f c)) (remdups (index_names t)))"
    by (rule distinct_length_filter [symmetric]) simp
  finally show ?thesis .
qed

lemma same_month_returns_fold:
  "fold (\<lambda>(col, col_returns) acc.
             if col = n then acc
             else case map_of col_returns idx of
                    None \<Rightarrow> acc
                  | Some col_value \<Rightarrow> if \<not> isna col_value then acc @ [col_value] else acc)
       air acc0
   = acc0 @ List.map_filter (\<lambda>(col, col_returns).
               if col = n then None
               else case map_of col_returns idx of
                      None \<Rightarrow> None
                    | Some col_value \<Rightarrow> if \<not> isna col_value then Some col_value else None) air"
  by (induction air arbitrary: acc0)
    (auto simp: List.map_filter_simps split: option.splits if_splits)

lemma same_month_returns_eq:
  "same_month_returns n air idx =
     List.map_filter (\<lambda>(col, col_returns).
               if col = n then None
               else case map_of col_returns idx of
                      None \<Rightarrow> None
                    | Some col_value \<Rightarrow> if \<not> isna col_value then Some col_value else None) air"
  by (simp add: same_month_returns_def same_month_returns_fold)

lemma length_same_month_returns:
  "length (same_month_returns n (returns_dict pd t (columns t) []) k) = length (peers pd t n k)"
  unfolding same_month_returns_eq length_map_filter count_returns_dict peers_def
  by (rule arg_cong [where f = length], rule filter_cong)
    (auto simp: mom_return_def split: option.splits)

lemma count_greater_same_month_returns:
  "length (filter (\<lambda>r. fgreater r v) (same_month_returns n (returns_dict pd t (columns t) []) k))
     = length (filter (\<lambda>c. fgreater (mom_return pd t c k) v) (peers pd t n k))"
  unfolding same_month_returns_eq length_filter_map_filter count_returns_dict peers_def filter_filter
  by (rule arg_cong [where f = length], rule filter_cong)
    (auto simp: mom_return_def split: option.splits)

lemma rank_cell_eq:
  "rank_cell n (returns_dict pd t (columns t) []) k v = rank_position pd t n k v"
proof -
  have "same_month_returns n (returns_dict pd t (columns t) []) k = [] \<longleftrightarrow> peers pd t n k = []"
    using length_same_month_returns [of n pd t k] by (metis length_0_conv)
  then show ?thesis
    by (simp add: rank_cell_def rank_position_def Let_def count_greater_same_month_returns)
qed

lemma fold_put_rank:
  "fold (\<lambda>(idx, v) m. matrix_put m idx (cell idx v)) xs m0 =
   fold (\<lambda>(idx, v) m. matrix_put m idx v) (map (\<lambda>(idx, v). (idx, cell idx v)) xs) m0"
  by (induction xs arbitrary: m0) (simp_all add: case_prod_beta)

lemma distinct_keys_mom: "distinct (map fst (calculate_mom_returns (groupby_mean pd t n)))"
  by (simp only: map_fst_calculate_mom_returns distinct_keys_groupby_mean)

lemma rank_position_cells:
  assumes "cache_inv pd s" and "index_name \<in> set (columns (data s))" and "index_name \<noteq> ''DATE''"
  shows "\<exists>rm s'. calculate_monthly_rank_position pd s index_name = (Inr rm, s') \<and>
           cache_inv pd s' \<and> data s' = data s \<and>
           (\<forall>k v. (k, v) \<in> set (calculate_mom_returns (groupby_mean pd (data s) index_name)) \<longrightarrow>
              matrix_get rm (str_int (fst k)) (str_int (snd k))
                = Some (rank_position pd (data s) index_name k v))"
proof -
  let ?t = "data s"
  let ?mom = "calculate_mom_returns (groupby_mean pd ?t index_name)"
  let ?air = "returns_dict pd ?t (columns ?t) []"
  let ?kvs = "map (\<lambda>(idx, v). (idx, rank_cell index_name ?air idx v)) ?mom"
  from calculate_monthly_average_valid [OF assms] obtain s1 where
    run: "calculate_monthly_average pd s index_name = (Inr (groupby_mean pd ?t index_name), s1)"
    and d1: "data s1 = ?t" and inv1: "cache_inv pd s1" by blast
  from all_indices_returns_loop_eq [OF inv1] d1 obtain s2 where
    loop: "all_indices_returns_loop pd s1 = (?air, s2)"
    and inv2: "cache_inv pd s2" and d2: "data s2 = ?t" by auto
  have fp: "fold (\<lambda>(idx, v) rank_matrix.
                   matrix_put rank_matrix idx (rank_cell index_name ?air idx v)) ?mom Map.empty
            = fold (\<lambda>(idx, v) m. matrix_put m idx v) ?kvs Map.empty"
    by (rule fold_put_rank)
  have res: "calculate_monthly_rank_position pd s index_name =
      (Inr (fold (\<lambda>(idx, v) m. matrix_put m idx v) ?kvs Map.empty), s2)"
    using assms(2) run loop
    by (simp add: calculate_monthly_rank_position_def Let_def fp)
  have keys: "map fst ?kvs = map fst ?mom"
    by (simp add: case_prod_beta comp_def)
  have dist: "distinct (map fst ?kvs)"
    by (simp only: keys distinct_keys_mom)
  have "matrix_get (fold (\<lambda>(idx, v) m. matrix_put m idx v) ?kvs Map.empty)
          (str_int (fst k)) (str_int (snd k)) = Some (rank_position pd ?t index_name k v)"
    if kv: "(k, v) \<in> set ?mom" for k v
  proof -
    from kv have "(k, rank_cell index_name ?air k v) \<in> set ?kvs" by force
    with dist have "map_of ?kvs k = Some (rank_cell index_name ?air k v)"
      by (rule map_of_is_SomeI)
    with matrix_get_fold_put [OF dist, of Map.empty "fst k" "snd k"] show ?thesis
      by (simp add: rank_cell_eq)
  qed
  with res inv2 d2 show ?thesis by blast
qed

lemma mom_return_in_series:
  "(k, v) \<in> set (calculate_mom_returns (groupby_mean pd t n)) \<Longrightarrow> mom_return pd t n k = v"
proof -
  assume "(k, v) \<in> set (calculate_mom_returns (groupby_mean pd t n))"
  with distinct_keys_mom [of pd t n] have "map_of (calculate_mom_returns (groupby_mean pd t n)) k = Some v"
    by (rule map_of_is_SomeI)
  then show ?thesis by (simp add: mom_return_def)
qed

lemma series_of_mom_return:
  "\<not> isna (mom_return pd t n k) \<Longrightarrow>
   (k, mom_return pd t n k) \<in> set (calculate_mom_returns (groupby_mean pd t n))"
  by (cases "map_of (calculate_mom_returns (groupby_mean pd t n)) k")
    (auto simp: mom_return_def dest: map_of_SomeD)

lemma rank_position_bounds:
  "rank_position pd t n k v = Some r \<Longrightarrow> 1 \<le> r \<and> r \<le> int (length (peers pd t n k)) + 1"
proof -
  assume a: "rank_position pd t n k v = Some r"
  have "length (filter (\<lambda>c. fgreater (mom_return pd t c k) v) (peers pd t n k)) \<le> length (peers pd t n k)"
    by (rule length_filter_le)
  with a show ?thesis
    by (auto simp: rank_position_def split: if_splits)
qed

lemma rank_position_tied_first:
  assumes "\<not> isna v" and "p \<in> set (index_names t)" and "p \<noteq> ''DATE''" and "p \<noteq> n"
    and "\<not> isna (mom_return pd t p k)"
    and "\<forall>c \<in> set (index_names t). c \<noteq> ''DATE'' \<longrightarrow> \<not> fgreater (mom_return pd t c k) v"
  shows "rank_position pd t n k v = Some 1"
proof -
  from assms(2-5) have "p \<in> set (peers pd t n k)" by (simp add: peers_def)
  then have ne: "peers pd t n k \<noteq> []" by auto
  have "filter (\<lambda>c. fgreater (mom_return pd t c k) v) (peers pd t n k) = []"
    using assms(6) by (auto simp: filter_empty_conv peers_def)
  with ne assms(1) show ?thesis by (simp add: rank_position_def)
qed

subsection \<open>An index named like a helper column\<close>

lemma month_columns: "columns month_table = [''DATE'', ''A'', ''Month'']"
  by (simp add: columns_def month_table_def)

lemma month_index_names: "index_names month_table = [''A'', ''Month'']"
  by (simp add: month_table_def)

lemma month_keys: "sort (remdups (map year_month (rows month_table))) = [(2020, 1), (2020, 2)]"
  by (simp add: month_table_def year_month_def)

lemma month_groupby_Month:
  "groupby_mean pd month_table ''Month''
     = [((2020, 1), group_mean pd [Fin 1]), ((2020, 2), group_mean pd [Fin 2])]"
  unfolding groupby_mean_def month_keys
  by (simp add: month_table_def group_values_def monthly_frame_column_def year_month_def)

lemma month_groupby_A:
  "groupby_mean pd month_table ''A''
     = [((2020, 1), group_mean pd [Fin 100]), ((2020, 2), group_mean pd [Fin 150])]"
  unfolding groupby_mean_def month_keys
  by (simp add: month_table_def group_values_def monthly_frame_column_def year_month_def)

lemma month_spec_Month:
  "spec_monthly_average pd month_table ''Month''
     = [((2020, 1), group_mean pd [Fin 100]), ((2020, 2), group_mean pd [Fin 100])]"
  unfolding spec_monthly_average_def month_keys
  by (simp add: month_table_def spec_group_values_def year_month_def)

lemma month_spec_A:
  "spec_monthly_average pd month_table ''A''
     = [((2020, 1), group_mean pd [Fin 100]), ((2020, 2), group_mean pd [Fin 150])]"
  unfolding spec_monthly_average_def month_keys
  by (simp add: month_table_def spec_group_values_def year_month_def)

lemma example_means:
  "group_mean example_pandas [Fin 1] = Fin 1"
  "group_mean example_pandas [Fin 2] = Fin 2"
  "group_mean example_pandas [Fin 100] = Fin 100"
  "group_mean example_pandas [Fin 150] = Fin 150"
  by (simp_all add: example_pandas_def mean_skipna_def fl_simps)

lemma month_run:
  "calculate_monthly_average pd (HeatmapService month_table) ''Month''
     = (Inr (groupby_mean pd month_table ''Month''),
        (HeatmapService month_table)
          \<lparr>cache := (cache (HeatmapService month_table))
             (get_cache_key ''Month'' ''monthly_avg'' [] \<mapsto> groupby_mean pd month_table ''Month'')\<rparr>)"
  by (simp add: calculate_monthly_average_def HeatmapService_def month_columns Let_def)

text \<open>
  Claim C7 fails on the code for an index named \<^verbatim>\<open>Month\<close> (or \<^verbatim>\<open>Year\<close>):
  \<^verbatim>\<open>df['Month'] = df['DATE'].dt.month\<close> replaces the index's column before the groups are
  averaged.  In the table where \<^verbatim>\<open>Month\<close> is 100 in January and in February 2020, the
  service averages the month numbers 1 and 2, and the Monthly Series of the index
  is the mean of 100 in both buckets.
\<close>

theorem C7_month_column_overwritten:
  "fst (calculate_monthly_average pd (HeatmapService month_table) ''Month'')
     = Inr [((2020, 1), group_mean pd [Fin 1]), ((2020, 2), group_mean pd [Fin 2])] \<and>
   spec_monthly_average pd month_table ''Month''
     = [((2020, 1), group_mean pd [Fin 100]), ((2020, 2), group_mean pd [Fin 100])] \<and>
   fst (calculate_monthly_average example_pandas (HeatmapService month_table) ''Month'')
     = Inr [((2020, 1), Fin 1), ((2020, 2), Fin 2)] \<and>
   spec_monthly_average example_pandas month_table ''Month''
     = [((2020, 1), Fin 100), ((2020, 2), Fin 100)]"
  by (simp add: month_run month_groupby_Month month_spec_Month example_means)

lemma month_mom_A:
  "calculate_mom_returns (groupby_mean example_pandas month_table ''A'')
     = [((2020, 1), NaN), ((2020, 2), Fin (1 / 2))]"
  by (simp add: month_groupby_A example_means calculate_mom_returns_def shift1_def fsub_def fl_simps)

lemma month_mom_Month:
  "calculate_mom_returns (groupby_mean example_pandas month_table ''Month'')
     = [((2020, 1), NaN), ((2020, 2), Fin 1)]"
  by (simp add: month_groupby_Month example_means calculate_mom_returns_def shift1_def fsub_def
      fl_simps)

lemma month_spec_mom_A:
  "calculate_mom_returns (spec_monthly_average example_pandas month_table ''A'')
     = [((2020, 1), NaN), ((2020, 2), Fin (1 / 2))]"
  by (simp add: month_spec_A example_means calculate_mom_returns_def shift1_def fsub_def fl_simps)

lemma month_spec_mom_Month:
  "calculate_mom_returns (spec_monthly_average example_pandas month_table ''Month'')
     = [((2020, 1), NaN), ((2020, 2), Fin 0)]"
  by (simp add: month_spec_Month example_means calculate_mom_returns_def shift1_def fsub_def
      fl_simps)

lemma month_rank_code:
  "rank_position example_pandas month_table ''A'' (2020, 2) (Fin (1 / 2)) = Some 2"
  by (simp add: rank_position_def peers_def mom_return_def month_index_names month_mom_Month
      month_mom_A fgreater_def)

lemma month_rank_spec:
  "spec_rank_position example_pandas month_table ''A'' (2020, 2) = Some 1"
  by (simp add: spec_rank_position_def spec_mom_return_def month_index_names
      month_spec_mom_Month month_spec_mom_A fgreater_def Let_def)

text \<open>
  Claim C8 fails on the code when a peer is named \<^verbatim>\<open>Month\<close> (or \<^verbatim>\<open>Year\<close>).  In the
  table where \<^verbatim>\<open>A\<close> goes from 100 in January to 150 in February 2020 and \<^verbatim>\<open>Month\<close> stays
  at 100, the return of \<^verbatim>\<open>A\<close> in February is 0.5 and the return of \<^verbatim>\<open>Month\<close> is 0, so
  no other index has a greater return and the rank of \<^verbatim>\<open>A\<close> is 1.  The service computes
  the return of \<^verbatim>\<open>Month\<close> from the month numbers 1 and 2, which is 1, and ranks \<^verbatim>\<open>A\<close>
  second.
\<close>

theorem C8_peer_named_month:
  "(\<exists>rm s'. calculate_monthly_rank_position example_pandas (HeatmapService month_table) ''A''
              = (Inr rm, s') \<and>
            matrix_get rm ''2020'' ''2'' = Some (Some 2)) \<and>
   mom_return example_pandas month_table ''A'' (2020, 2) = Fin (1 / 2) \<and>
   mom_return example_pandas month_table ''Month'' (2020, 2) = Fin 1 \<and>
   spec_mom_return example_pandas month_table ''A'' (2020, 2) = Fin (1 / 2) \<and>
   spec_mom_return example_pandas month_table ''Month'' (2020, 2) = Fin 0 \<and>
   spec_rank_position example_pandas month_table ''A'' (2020, 2) = Some 1"
proof -
  let ?s = "HeatmapService month_table"
  have d: "data ?s = month_table" by (simp add: HeatmapService_def)
  have a: "''A'' \<in> set (columns (data ?s))" by (simp add: d month_columns)
  have b: "''A'' \<noteq> ''DATE''" by simp
  have ci: "cache_inv example_pandas ?s" by (rule cache_inv_init)
  from rank_position_cells [OF ci a b] obtain rm s' where
    run: "calculate_monthly_rank_position example_pandas ?s ''A'' = (Inr rm, s')"
    and cells: "\<And>k v. (k, v) \<in> set (calculate_mom_returns
                                        (groupby_mean example_pandas (data ?s) ''A'')) \<Longrightarrow>
              matrix_get rm (str_int (fst k)) (str_int (snd k))
                = Some (rank_position example_pandas (data ?s) ''A'' k v)"
    by blast
  have "((2020, 2), Fin (1 / 2)) \<in> set (calculate_mom_returns
                                        (groupby_mean example_pandas (data ?s) ''A''))"
    by (simp add: d month_mom_A)
  from cells [OF this] have cell: "matrix_get rm ''2020'' ''2'' = Some (Some 2)"
    by (simp add: d str_int_2020 str_int_2 month_rank_code)
  have 1: "mom_return example_pandas month_table ''A'' (2020, 2) = Fin (1 / 2)"
    and 2: "mom_return example_pandas month_table ''Month'' (2020, 2) = Fin 1"
    by (simp_all add: mom_return_def month_mom_A month_mom_Month)
  have 3: "spec_mom_return example_pandas month_table ''A'' (2020, 2) = Fin (1 / 2)"
    and 4: "spec_mom_return example_pandas month_table ''Month'' (2020, 2) = Fin 0"
    by (simp_all add: spec_mom_return_def month_spec_mom_A month_spec_mom_Month)
  from run cell 1 2 3 4 month_rank_spec show ?thesis by blast
qed

end
